theory Spec2Isabelle
  imports Main "HOL-Library.Signed_Division"
begin

section \<open>The water valve controller: shared state\<close>

text \<open>
  The firmware keeps its state in file-level variables of two translation units: the UI
  and countdown (the \<^verbatim>\<open>water_control\<close> main file) and the MQTT client
  (\<^verbatim>\<open>mqtt_relay_client.c\<close>). The model gathers them in one record and passes it
  through every function. What the functions hand to the libraries (LVGL widgets, the
  LVGL timer, the MQTT client, the ESP log) is recorded in the same record, so that each
  side effect of the source is a visible change of the state.

  The libraries are taken to work as their documentation says: \<^verbatim>\<open>lv_timer_create\<close>
  returns a running timer, \<^verbatim>\<open>lv_timer_pause\<close> and \<^verbatim>\<open>lv_timer_resume\<close> stop
  and restart its ticks, and the MQTT client handle exists once \<^verbatim>\<open>mqtt_init\<close> has
  run. Bringing up the display, the touch panel, Wi-Fi and the widgets is not modelled;
  the model starts in the state \<^verbatim>\<open>app_main\<close> leaves behind.
\<close>

subsection \<open>Library objects\<close>

text \<open>An LVGL timer is either delivering ticks or paused.\<close>

datatype lv_timer = LV_TIMER_ACTIVE | LV_TIMER_PAUSED

text \<open>
  A call of \<^verbatim>\<open>esp_mqtt_client_publish(client, topic, data, 0, qos, retain)\<close>.
\<close>

record mqtt_msg =
  topic :: string
  data :: string
  qos :: nat
  retain :: bool

text \<open>
  The log keeps the warnings and errors (\<^verbatim>\<open>ESP_LOGW\<close>, \<^verbatim>\<open>ESP_LOGE\<close>) with
  their format string and arguments; informational and debug trace lines are not part of
  the model.
\<close>

datatype esp_log_level = ESP_LOG_ERROR | ESP_LOG_WARN

datatype log_arg = Str string | Num int

type_synonym log_entry = "esp_log_level \<times> string \<times> log_arg list"

text \<open>
  The only function ever stored in \<^verbatim>\<open>state_change_callback\<close> is
  \<^verbatim>\<open>mqtt_state_callback\<close>, registered by \<^verbatim>\<open>app_main\<close>; \<open>None\<close> is the
  \<^verbatim>\<open>NULL\<close> pointer.
\<close>

datatype callback = Mqtt_state_callback

record state =
  \<comment> \<open>UI objects of the main file\<close>
  toggle_checked :: bool  \<comment> \<open>\<^verbatim>\<open>LV_STATE_CHECKED\<close> of \<^verbatim>\<open>toggle_btn\<close>\<close>
  btn_label :: string
  timer_label :: string
  countdown_timer :: "lv_timer option"
  \<comment> \<open>timer variables of the main file\<close>
  seconds_remaining :: int
  timer_running :: bool
  \<comment> \<open>variables of the MQTT client\<close>
  mqtt_connected :: bool
  state_change_callback :: "callback option"
  \<comment> \<open>what was handed to the MQTT client and to the log, oldest first\<close>
  published :: "mqtt_msg list"
  subscribed :: "(string \<times> nat) list"
  esp_log :: "log_entry list"
  \<comment> \<open>answers of the environment\<close>
  lvgl_lock_result :: bool  \<comment> \<open>what \<^verbatim>\<open>lvgl_port_lock(0)\<close> returns\<close>
  publish_msg_id :: int  \<comment> \<open>what \<^verbatim>\<open>esp_mqtt_client_publish\<close> returns\<close>

subsection \<open>Constants of the MQTT client\<close>

definition STATE_TOPIC :: string where
  "STATE_TOPIC = ''water_valve/state''"

definition COMMAND_TOPIC :: string where
  "COMMAND_TOPIC = ''water_valve/set''"

definition AVAILABILITY_TOPIC :: string where
  "AVAILABILITY_TOPIC = ''water_valve/status''"

definition DISCOVERY_TOPIC :: string where
  "DISCOVERY_TOPIC = ''homeassistant/switch/water_valve/config''"

definition DEVICE_NAME :: string where
  "DEVICE_NAME = ''water_valve_controller''"

definition DEVICE_MODEL :: string where
  "DEVICE_MODEL = ''ESP32CYD''"

definition DEVICE_MANUFACTURER :: string where
  "DEVICE_MANUFACTURER = ''Custom''"

section \<open>C arithmetic and C strings\<close>

text \<open>
  \<^verbatim>\<open>seconds_remaining\<close> is a C \<^verbatim>\<open>int\<close> (32 bits on the ESP32). The model
  keeps it as an integer and writes the two's complement wrap-around of the decrement
  out.
\<close>

definition int32 :: "int \<Rightarrow> int" where
  "int32 x = (x + 2 ^ 31) mod 2 ^ 32 - 2 ^ 31"

text \<open>The \<^verbatim>\<open>%02d\<close> conversion of \<^verbatim>\<open>sprintf\<close>.\<close>

definition digit_char :: "nat \<Rightarrow> char" where
  "digit_char d = ''0123456789'' ! d"

fun dec :: "nat \<Rightarrow> string" where
  "dec n = (if n < 10 then [digit_char n] else dec (n div 10) @ [digit_char (n mod 10)])"

declare dec.simps [simp del]

definition fmt_02d :: "int \<Rightarrow> string" where
  "fmt_02d n =
     (if n < 0 then CHR ''-'' # dec (nat (- n))
      else (let d = dec (nat n) in if length d < 2 then CHR ''0'' # d else d))"

text \<open>
  A C string ends at its first NUL byte: \<open>cstr\<close> reads the string a buffer holds,
  \<open>strcmp\<close> and \<open>strncmp\<close> say whether the comparison of the source returns 0.
\<close>

definition cstr :: "string \<Rightarrow> string" where
  "cstr buf = takeWhile (\<lambda>c. c \<noteq> CHR 0x00) buf"

definition strcmp_eq :: "string \<Rightarrow> string \<Rightarrow> bool" where
  "strcmp_eq a b = (cstr a = cstr b)"

definition strncmp_eq :: "string \<Rightarrow> string \<Rightarrow> nat \<Rightarrow> bool" where
  "strncmp_eq a b n = (cstr (take n a) = cstr (take n b))"

section \<open>The MQTT client\<close>

definition esp_log_write :: "esp_log_level \<Rightarrow> string \<Rightarrow> log_arg list \<Rightarrow> state \<Rightarrow> state" where
  "esp_log_write lvl fmt args s = s\<lparr>esp_log := esp_log s @ [(lvl, fmt, args)]\<rparr>"

text \<open>
  The client library records the request and answers with a message id, \<open>-1\<close> for a
  failure. \<open>published\<close> is the list of requests the firmware made.
\<close>

definition esp_mqtt_client_publish ::
  "string \<Rightarrow> string \<Rightarrow> nat \<Rightarrow> bool \<Rightarrow> state \<Rightarrow> int \<times> state" where
  "esp_mqtt_client_publish t d q r s =
     (publish_msg_id s,
      s\<lparr>published := published s @ [\<lparr>topic = t, data = d, qos = q, retain = r\<rparr>]\<rparr>)"

definition esp_mqtt_client_subscribe :: "string \<Rightarrow> nat \<Rightarrow> state \<Rightarrow> state" where
  "esp_mqtt_client_subscribe t q s = s\<lparr>subscribed := subscribed s @ [(t, q)]\<rparr>"

definition mqtt_is_connected :: "state \<Rightarrow> bool" where
  "mqtt_is_connected s = mqtt_connected s"

definition discovery_message :: string where
  \<open>discovery_message =
     ''{"name":"Water Valve","unique_id":"water_valve_controller","state_topic":"''
     @ STATE_TOPIC @ ''","command_topic":"'' @ COMMAND_TOPIC
     @ ''","payload_on":"ON","payload_off":"OFF","availability_topic":"''
     @ AVAILABILITY_TOPIC
     @ ''","payload_available":"online","payload_not_available":"offline","device":{"identifiers":["''
     @ DEVICE_NAME @ ''"],"name":"'' @ DEVICE_NAME @ ''","model":"'' @ DEVICE_MODEL
     @ ''","manufacturer":"'' @ DEVICE_MANUFACTURER @ ''"}}''\<close>

text \<open>
  \<^verbatim>\<open>snprintf\<close> cuts the message to the 511 characters its buffer of 512 holds.
\<close>

definition publish_discovery_info :: "state \<Rightarrow> state" where
  "publish_discovery_info s =
     (if \<not> mqtt_is_connected s then s
      else
        (let message = take 511 discovery_message;
             (msg_id, s1) = esp_mqtt_client_publish DISCOVERY_TOPIC message 1 True s
         in if msg_id \<noteq> -1 then s1
            else esp_log_write ESP_LOG_WARN
                   ''Failed to publish discovery info for water valve'' [] s1))"

text \<open>The relay number is ignored by the source: there is one valve.\<close>

definition mqtt_publish_relay_state :: "nat \<Rightarrow> bool \<Rightarrow> state \<Rightarrow> state" where
  "mqtt_publish_relay_state relay_num st s =
     (if \<not> mqtt_is_connected s then s
      else
        (let (msg_id, s1) =
               esp_mqtt_client_publish STATE_TOPIC (if st then ''ON'' else ''OFF'') 1 True s
         in if msg_id \<noteq> -1 then s1
            else esp_log_write ESP_LOG_WARN ''Failed to publish water valve state'' [] s1))"

definition mqtt_publish_all_relay_states :: "state \<Rightarrow> state" where
  "mqtt_publish_all_relay_states s = mqtt_publish_relay_state 1 False s"

definition mqtt_register_state_change_callback :: "callback option \<Rightarrow> state \<Rightarrow> state" where
  "mqtt_register_state_change_callback cb s = s\<lparr>state_change_callback := cb\<rparr>"

section \<open>The countdown and the toggle button\<close>

text \<open>
  \<^verbatim>\<open>lvgl_port_lock\<close> belongs to the LVGL port component; its answer is taken from
  the environment.
\<close>

definition lvgl_port_lock :: "state \<Rightarrow> bool" where
  "lvgl_port_lock s = lvgl_lock_result s"

definition update_timer_display :: "state \<Rightarrow> state" where
  "update_timer_display s =
     (let minutes = seconds_remaining s sdiv 60;
          seconds = seconds_remaining s smod 60;
          time_str = fmt_02d minutes @ '':'' @ fmt_02d seconds
      in if lvgl_port_lock s then s\<lparr>timer_label := time_str\<rparr> else s)"

definition start_countdown :: "state \<Rightarrow> state" where
  "start_countdown s =
     (let s1 = s\<lparr>seconds_remaining := 300, timer_running := True\<rparr>;
          s2 = update_timer_display s1
      in case countdown_timer s2 of
           None \<Rightarrow> s2\<lparr>countdown_timer := Some LV_TIMER_ACTIVE\<rparr>
         | Some t \<Rightarrow> s2\<lparr>countdown_timer := Some LV_TIMER_ACTIVE\<rparr>)"

definition stop_countdown :: "state \<Rightarrow> state" where
  "stop_countdown s =
     (let s1 = s\<lparr>timer_running := False, seconds_remaining := 300\<rparr>;
          s2 = (case countdown_timer s1 of
                  None \<Rightarrow> s1
                | Some t \<Rightarrow> s1\<lparr>countdown_timer := Some LV_TIMER_PAUSED\<rparr>)
      in update_timer_display s2)"

datatype lv_event_code = LV_EVENT_VALUE_CHANGED | LV_EVENT_OTHER

text \<open>
  The callback is attached to \<^verbatim>\<open>toggle_btn\<close> only, so the event's target is the
  toggle button and \<^verbatim>\<open>lv_obj_has_state\<close> reads its checked state.
\<close>

definition toggle_event_cb :: "lv_event_code \<Rightarrow> state \<Rightarrow> state" where
  "toggle_event_cb code s =
     (if code = LV_EVENT_VALUE_CHANGED then
        (let is_checked = toggle_checked s
         in if is_checked then
              start_countdown
                (mqtt_publish_relay_state 1 True (s\<lparr>btn_label := ''Turn Water Off''\<rparr>))
            else
              stop_countdown
                (mqtt_publish_relay_state 1 False (s\<lparr>btn_label := ''Turn Water On''\<rparr>)))
      else s)"

definition countdown_timer_cb :: "state \<Rightarrow> state" where
  "countdown_timer_cb s =
     (if \<not> timer_running s then s
      else
        (let s1 = s\<lparr>seconds_remaining := int32 (seconds_remaining s - 1)\<rparr>;
             s2 = update_timer_display s1
         in if seconds_remaining s2 \<le> 0 then
              (let s3 = (if lvgl_port_lock s2
                         then s2\<lparr>toggle_checked := False, btn_label := ''Turn Water On''\<rparr>
                         else s2);
                   s4 = mqtt_publish_relay_state 1 False s3
               in stop_countdown s4)
            else s2))"

definition mqtt_state_callback :: "nat \<Rightarrow> bool \<Rightarrow> state \<Rightarrow> state" where
  "mqtt_state_callback relay_num st s =
     (if lvgl_port_lock s then
        (if st then
           (let s1 = s\<lparr>toggle_checked := True, btn_label := ''Turn Water Off''\<rparr>
            in if \<not> timer_running s1 then start_countdown s1 else s1)
         else
           (let s1 = s\<lparr>toggle_checked := False, btn_label := ''Turn Water On''\<rparr>
            in if timer_running s1 then stop_countdown s1 else s1))
      else s)"

section \<open>Inbound MQTT\<close>

text \<open>
  The call through the pointer \<^verbatim>\<open>state_change_callback\<close>, made only when the pointer
  is not \<^verbatim>\<open>NULL\<close>.
\<close>

definition call_state_change_callback :: "nat \<Rightarrow> bool \<Rightarrow> state \<Rightarrow> state" where
  "call_state_change_callback relay_num st s =
     (case state_change_callback s of
        None \<Rightarrow> s
      | Some Mqtt_state_callback \<Rightarrow> mqtt_state_callback relay_num st s)"

text \<open>
  The payload is a sequence of bytes with its length. It is copied into a zeroed buffer of
  16 bytes, at most 15 of them, and the buffer is then compared as a C string.
\<close>

definition handle_valve_command :: "string \<Rightarrow> state \<Rightarrow> state" where
  "handle_valve_command payload s =
     (let payload_len = length payload;
          n = (if payload_len < 16 - 1 then payload_len else 16 - 1);
          cmd = take n payload @ replicate (16 - n) (CHR 0x00)
      in if strcmp_eq cmd ''ON'' then
           call_state_change_callback 1 True (mqtt_publish_relay_state 1 True s)
         else if strcmp_eq cmd ''OFF'' then
           call_state_change_callback 1 False (mqtt_publish_relay_state 1 False s)
         else esp_log_write ESP_LOG_WARN ''Unknown command: %s'' [Str (cstr cmd)] s)"

record esp_mqtt_error_codes =
  error_type_tcp_transport :: bool
  esp_tls_last_esp_err :: int
  esp_tls_stack_err :: int
  esp_transport_sock_errno :: int

datatype esp_mqtt_event =
    MQTT_EVENT_CONNECTED
  | MQTT_EVENT_DISCONNECTED
  | MQTT_EVENT_SUBSCRIBED
  | MQTT_EVENT_UNSUBSCRIBED
  | MQTT_EVENT_PUBLISHED
  | MQTT_EVENT_DATA string string  \<comment> \<open>topic and data, each with its length\<close>
  | MQTT_EVENT_ERROR esp_mqtt_error_codes
  | MQTT_EVENT_OTHER

definition log_error_if_nonzero :: "string \<Rightarrow> int \<Rightarrow> state \<Rightarrow> state" where
  "log_error_if_nonzero message error_code s =
     (if error_code \<noteq> 0
      then esp_log_write ESP_LOG_ERROR ''Last error %s: 0x%x'' [Str message, Num error_code] s
      else s)"

fun mqtt_event_handler :: "esp_mqtt_event \<Rightarrow> state \<Rightarrow> state" where
  "mqtt_event_handler MQTT_EVENT_CONNECTED s =
     (let s1 = s\<lparr>mqtt_connected := True\<rparr>;
          s2 = snd (esp_mqtt_client_publish AVAILABILITY_TOPIC ''online'' 1 True s1);
          s3 = publish_discovery_info s2;
          s4 = esp_mqtt_client_subscribe COMMAND_TOPIC 0 s3
      in mqtt_publish_relay_state 1 False s4)"
| "mqtt_event_handler MQTT_EVENT_DISCONNECTED s =
     (esp_log_write ESP_LOG_WARN ''MQTT_EVENT_DISCONNECTED'' [] s)\<lparr>mqtt_connected := False\<rparr>"
| "mqtt_event_handler MQTT_EVENT_SUBSCRIBED s = s"
| "mqtt_event_handler MQTT_EVENT_UNSUBSCRIBED s = s"
| "mqtt_event_handler MQTT_EVENT_PUBLISHED s = s"
| "mqtt_event_handler (MQTT_EVENT_DATA tp dt) s =
     (if length tp = length COMMAND_TOPIC \<and> strncmp_eq tp COMMAND_TOPIC (length tp)
      then handle_valve_command dt s
      else s)"
| "mqtt_event_handler (MQTT_EVENT_ERROR eh) s =
     (let s1 = esp_log_write ESP_LOG_WARN ''MQTT_EVENT_ERROR'' [] s
      in if error_type_tcp_transport eh then
           log_error_if_nonzero ''captured as transport's socket errno''
               (esp_transport_sock_errno eh)
             (log_error_if_nonzero ''reported from tls stack'' (esp_tls_stack_err eh)
               (log_error_if_nonzero ''reported from esp-tls'' (esp_tls_last_esp_err eh) s1))
         else s1)"
| "mqtt_event_handler MQTT_EVENT_OTHER s = s"

section \<open>The device as a whole\<close>

text \<open>
  What reaches the callbacks: a tap on the toggle button (LVGL flips the checked state of
  a checkable button and then sends \<^verbatim>\<open>LV_EVENT_VALUE_CHANGED\<close>), a period of the
  countdown timer elapsing (LVGL calls the callback of a timer that exists and is not
  paused), an event of the MQTT client, and a change of what the environment answers.
\<close>

datatype event =
    User_tap
  | Timer_tick
  | Mqtt esp_mqtt_event
  | Env_lock bool
  | Env_msg_id int

definition lv_btn_tap :: "state \<Rightarrow> state" where
  "lv_btn_tap s = toggle_event_cb LV_EVENT_VALUE_CHANGED (s\<lparr>toggle_checked := \<not> toggle_checked s\<rparr>)"

definition lv_timer_fire :: "state \<Rightarrow> state" where
  "lv_timer_fire s =
     (case countdown_timer s of
        Some LV_TIMER_ACTIVE \<Rightarrow> countdown_timer_cb s
      | _ \<Rightarrow> s)"

fun step :: "event \<Rightarrow> state \<Rightarrow> state" where
  "step User_tap s = lv_btn_tap s"
| "step Timer_tick s = lv_timer_fire s"
| "step (Mqtt ev) s = mqtt_event_handler ev s"
| "step (Env_lock b) s = s\<lparr>lvgl_lock_result := b\<rparr>"
| "step (Env_msg_id i) s = s\<lparr>publish_msg_id := i\<rparr>"

definition run :: "event list \<Rightarrow> state \<Rightarrow> state" where
  "run evs s = fold step evs s"

text \<open>
  The state \<^verbatim>\<open>app_main\<close> leaves behind: the valve closed with the full countdown,
  the callback registered, the timer not yet created, MQTT not yet connected.
\<close>

definition init_state :: state where
  "init_state =
     \<lparr>toggle_checked = False, btn_label = ''Turn Water On'', timer_label = ''05:00'',
      countdown_timer = None, seconds_remaining = 300, timer_running = False,
      mqtt_connected = False, state_change_callback = Some Mqtt_state_callback,
      published = [], subscribed = [], esp_log = [],
      lvgl_lock_result = True, publish_msg_id = 0\<rparr>"

section \<open>Notions used in the statements\<close>

text \<open>The retained message that announces the valve state on the state topic.\<close>

definition state_msg :: "bool \<Rightarrow> mqtt_msg" where
  "state_msg st =
     \<lparr>topic = STATE_TOPIC, data = (if st then ''ON'' else ''OFF''), qos = 1, retain = True\<rparr>"

text \<open>The warning a publish of the valve state leaves when the client refuses it.\<close>

definition publish_warning :: "state \<Rightarrow> log_entry list" where
  "publish_warning s =
     (if mqtt_connected s \<and> publish_msg_id s = -1
      then [(ESP_LOG_WARN, ''Failed to publish water valve state'', [])] else [])"

text \<open>The countdown text of a number of seconds, and what the label shows after an
  update: the new text when the display lock was taken, the old one otherwise.\<close>

definition time_str :: "int \<Rightarrow> string" where
  "time_str sec = fmt_02d (sec sdiv 60) @ '':'' @ fmt_02d (sec smod 60)"

definition shown_time :: "int \<Rightarrow> state \<Rightarrow> string" where
  "shown_time sec s = (if lvgl_lock_result s then time_str sec else timer_label s)"

text \<open>The command the handler reads in a payload: the C string held by the first 15
  bytes.\<close>

definition command_of :: "string \<Rightarrow> string" where
  "command_of payload = cstr (take 15 payload)"

text \<open>The valve as the specification sees it: open or closed, and the seconds left.\<close>

definition valve :: "state \<Rightarrow> bool \<times> int" where
  "valve s = (timer_running s, seconds_remaining s)"

text \<open>Everything the device shows and keeps locally: the valve, the timer handle and the
  three widgets.\<close>

definition local_view ::
  "state \<Rightarrow> (bool \<times> int) \<times> lv_timer option \<times> bool \<times> string \<times> string" where
  "local_view s = (valve s, countdown_timer s, toggle_checked s, btn_label s, timer_label s)"

text \<open>The payload the broker retains on the state topic: the last one published there.\<close>

definition retained_state :: "state \<Rightarrow> string option" where
  "retained_state s =
     (case filter (\<lambda>m. topic m = STATE_TOPIC \<and> retain m) (published s) of
        [] \<Rightarrow> None
      | m # ms \<Rightarrow> Some (data (last (m # ms))))"

text \<open>The countdown invariant of the specification, with 300 seconds as the full
  duration.\<close>

definition countdown_inv :: "state \<Rightarrow> bool" where
  "countdown_inv s =
     (0 \<le> seconds_remaining s \<and> seconds_remaining s \<le> 300 \<and>
      (if timer_running s then 0 < seconds_remaining s else seconds_remaining s = 300))"

text \<open>The toggle button and its label agree with the valve.\<close>

definition ui_consistent :: "state \<Rightarrow> bool" where
  "ui_consistent s =
     (toggle_checked s = timer_running s \<and>
      btn_label s = (if timer_running s then ''Turn Water Off'' else ''Turn Water On''))"



section \<open>Closed forms of the functions\<close>

lemma int32_id: "- (2 ^ 31) \<le> x \<Longrightarrow> x < 2 ^ 31 \<Longrightarrow> int32 x = x"
  by (simp add: int32_def)

lemma time_str_300: "time_str 300 = ''05:00''"
  by (simp add: time_str_def fmt_02d_def dec.simps digit_char_def
      signed_divide_int_def signed_modulo_int_def)

lemma mqtt_publish_relay_state_eq:
  "mqtt_publish_relay_state n st s =
     s\<lparr>published := published s @ (if mqtt_connected s then [state_msg st] else []),
       esp_log := esp_log s @ publish_warning s\<rparr>"
  by (simp add: mqtt_publish_relay_state_def mqtt_is_connected_def esp_mqtt_client_publish_def
      esp_log_write_def state_msg_def publish_warning_def)

lemma update_timer_display_eq:
  "update_timer_display s = s\<lparr>timer_label := shown_time (seconds_remaining s) s\<rparr>"
  by (simp add: update_timer_display_def lvgl_port_lock_def shown_time_def time_str_def)

lemma start_countdown_eq:
  "start_countdown s =
     s\<lparr>seconds_remaining := 300, timer_running := True,
       timer_label := shown_time 300 s, countdown_timer := Some LV_TIMER_ACTIVE\<rparr>"
  by (simp add: start_countdown_def update_timer_display_eq shown_time_def Let_def
      split: option.splits)

lemma stop_countdown_eq:
  "stop_countdown s =
     s\<lparr>timer_running := False, seconds_remaining := 300,
       countdown_timer := map_option (\<lambda>t. LV_TIMER_PAUSED) (countdown_timer s),
       timer_label := shown_time 300 s\<rparr>"
  by (simp add: stop_countdown_def update_timer_display_eq shown_time_def Let_def
      split: option.splits)

lemma toggle_event_cb_eq:
  "toggle_event_cb LV_EVENT_VALUE_CHANGED s =
     s\<lparr>btn_label := (if toggle_checked s then ''Turn Water Off'' else ''Turn Water On''),
       published := published s @ (if mqtt_connected s then [state_msg (toggle_checked s)] else []),
       esp_log := esp_log s @ publish_warning s,
       seconds_remaining := 300, timer_running := toggle_checked s,
       timer_label := shown_time 300 s,
       countdown_timer := (if toggle_checked s then Some LV_TIMER_ACTIVE
                           else map_option (\<lambda>t. LV_TIMER_PAUSED) (countdown_timer s))\<rparr>"
  by (simp add: toggle_event_cb_def mqtt_publish_relay_state_eq start_countdown_eq
      stop_countdown_eq shown_time_def publish_warning_def)

lemma countdown_timer_cb_idle: "\<not> timer_running s \<Longrightarrow> countdown_timer_cb s = s"
  by (simp add: countdown_timer_cb_def)

lemma countdown_timer_cb_count:
  "timer_running s \<Longrightarrow> 0 < int32 (seconds_remaining s - 1) \<Longrightarrow>
   countdown_timer_cb s =
     s\<lparr>seconds_remaining := int32 (seconds_remaining s - 1),
       timer_label := shown_time (int32 (seconds_remaining s - 1)) s\<rparr>"
  by (simp add: countdown_timer_cb_def update_timer_display_eq shown_time_def)

lemma countdown_timer_cb_expire:
  "timer_running s \<Longrightarrow> int32 (seconds_remaining s - 1) \<le> 0 \<Longrightarrow>
   countdown_timer_cb s =
     s\<lparr>toggle_checked := (if lvgl_lock_result s then False else toggle_checked s),
       btn_label := (if lvgl_lock_result s then ''Turn Water On'' else btn_label s),
       published := published s @ (if mqtt_connected s then [state_msg False] else []),
       esp_log := esp_log s @ publish_warning s,
       timer_running := False, seconds_remaining := 300,
       countdown_timer := map_option (\<lambda>t. LV_TIMER_PAUSED) (countdown_timer s),
       timer_label := shown_time 300 s\<rparr>"
  by (simp add: countdown_timer_cb_def update_timer_display_eq mqtt_publish_relay_state_eq
      stop_countdown_eq lvgl_port_lock_def shown_time_def publish_warning_def)

lemma mqtt_state_callback_eq:
  "mqtt_state_callback n st s =
     (if lvgl_lock_result s then
        (if st = timer_running s then
           s\<lparr>toggle_checked := st,
             btn_label := (if st then ''Turn Water Off'' else ''Turn Water On'')\<rparr>
         else
           s\<lparr>toggle_checked := st,
             btn_label := (if st then ''Turn Water Off'' else ''Turn Water On''),
             seconds_remaining := 300, timer_running := st,
             timer_label := time_str 300,
             countdown_timer := (if st then Some LV_TIMER_ACTIVE
                                 else map_option (\<lambda>t. LV_TIMER_PAUSED) (countdown_timer s))\<rparr>)
      else s)"
  by (simp add: mqtt_state_callback_def start_countdown_eq stop_countdown_eq lvgl_port_lock_def
      shown_time_def)

lemma call_state_change_callback_eq:
  "call_state_change_callback n st s =
     (if state_change_callback s = None then s else mqtt_state_callback n st s)"
  by (simp add: call_state_change_callback_def split: option.splits callback.splits)

subsection \<open>C strings\<close>

lemma takeWhile_padding:
  "0 < k \<Longrightarrow> takeWhile (\<lambda>c. c \<noteq> z) (xs @ replicate k z) = takeWhile (\<lambda>c. c \<noteq> z) xs"
  by (induction xs) (auto simp: gr0_conv_Suc)

lemma cstr_cmd_buffer:
  "cstr (take (if length p < 16 - 1 then length p else 16 - 1) p
         @ replicate (16 - (if length p < 16 - 1 then length p else 16 - 1)) (CHR 0x00))
   = command_of p"
proof -
  have "take (if length p < 16 - 1 then length p else 16 - 1) p = take 15 p"
    by simp
  moreover have "0 < 16 - (if length p < 16 - 1 then length p else 16 - 1)"
    by simp
  ultimately show ?thesis
    unfolding cstr_def command_of_def by (simp only: takeWhile_padding)
qed

lemma cstr_ON: "cstr ''ON'' = ''ON''" and cstr_OFF: "cstr ''OFF'' = ''OFF''"
  by (simp_all add: cstr_def)

lemma handle_valve_command_eq:
  "handle_valve_command p s =
     (if command_of p = ''ON'' then
        call_state_change_callback 1 True (mqtt_publish_relay_state 1 True s)
      else if command_of p = ''OFF'' then
        call_state_change_callback 1 False (mqtt_publish_relay_state 1 False s)
      else esp_log_write ESP_LOG_WARN ''Unknown command: %s'' [Str (command_of p)] s)"
  unfolding handle_valve_command_def Let_def strcmp_eq_def cstr_cmd_buffer cstr_ON cstr_OFF
  by (rule refl)

lemma cstr_no_nul: "CHR 0x00 \<notin> set xs \<Longrightarrow> cstr xs = xs"
  by (auto simp: cstr_def takeWhile_eq_all_conv)

lemma command_of_short:
  "CHR 0x00 \<notin> set p \<Longrightarrow> length c < 15 \<Longrightarrow> (command_of p = c) = (p = c)"
proof
  assume nul: "CHR 0x00 \<notin> set p" and len: "length c < 15" and eq: "command_of p = c"
  have "CHR 0x00 \<notin> set (take 15 p)"
    using nul by (auto dest: in_set_takeD)
  then have "take 15 p = c"
    using eq by (simp add: command_of_def cstr_no_nul)
  moreover from this have "length p < 15"
    using len by (auto simp: min_def split: if_splits)
  ultimately show "p = c" by simp
next
  assume nul: "CHR 0x00 \<notin> set p" and len: "length c < 15" and eq: "p = c"
  then show "command_of p = c"
    by (simp add: command_of_def cstr_no_nul)
qed

lemma topic_match:
  "(length tp = length COMMAND_TOPIC \<and> strncmp_eq tp COMMAND_TOPIC (length tp))
   = (tp = COMMAND_TOPIC)"
proof
  assume a: "length tp = length COMMAND_TOPIC \<and> strncmp_eq tp COMMAND_TOPIC (length tp)"
  have c: "cstr COMMAND_TOPIC = COMMAND_TOPIC"
    by (simp add: cstr_def COMMAND_TOPIC_def)
  from a have "cstr tp = COMMAND_TOPIC"
    by (simp add: strncmp_eq_def c)
  then have "length (takeWhile (\<lambda>c. c \<noteq> CHR 0x00) tp) = length tp"
    using a by (simp add: cstr_def)
  then have "takeWhile (\<lambda>c. c \<noteq> CHR 0x00) tp = tp"
    by (metis takeWhile_eq_take take_all_iff order_refl)
  with \<open>cstr tp = COMMAND_TOPIC\<close> show "tp = COMMAND_TOPIC"
    by (simp add: cstr_def)
next
  assume "tp = COMMAND_TOPIC"
  then show "length tp = length COMMAND_TOPIC \<and> strncmp_eq tp COMMAND_TOPIC (length tp)"
    by (simp add: strncmp_eq_def)
qed


subsection \<open>The MQTT event handler and the steps\<close>

lemma connected_eq:
  "mqtt_event_handler MQTT_EVENT_CONNECTED s =
     s\<lparr>mqtt_connected := True,
       published := published s @
         [\<lparr>topic = AVAILABILITY_TOPIC, data = ''online'', qos = 1, retain = True\<rparr>,
          \<lparr>topic = DISCOVERY_TOPIC, data = take 511 discovery_message, qos = 1, retain = True\<rparr>,
          state_msg False],
       subscribed := subscribed s @ [(COMMAND_TOPIC, 0)],
       esp_log := esp_log s @
         (if publish_msg_id s = -1
          then [(ESP_LOG_WARN, ''Failed to publish discovery info for water valve'', []),
                (ESP_LOG_WARN, ''Failed to publish water valve state'', [])]
          else [])\<rparr>"
  by (simp add: mqtt_publish_relay_state_eq publish_discovery_info_def mqtt_is_connected_def
      esp_mqtt_client_publish_def esp_mqtt_client_subscribe_def esp_log_write_def
      publish_warning_def Let_def)

lemma data_eq:
  "mqtt_event_handler (MQTT_EVENT_DATA tp dt) s =
     (if tp = COMMAND_TOPIC then handle_valve_command dt s else s)"
  by (simp only: mqtt_event_handler.simps topic_match)

lemma valve_publish [simp]: "valve (mqtt_publish_relay_state n st s) = valve s"
  by (simp add: valve_def mqtt_publish_relay_state_eq)

lemma valve_log [simp]: "valve (esp_log_write l f a s) = valve s"
  by (simp add: valve_def esp_log_write_def)

lemma valve_log_error [simp]: "valve (log_error_if_nonzero m c s) = valve s"
  by (simp add: log_error_if_nonzero_def)

lemma countdown_inv_valve: "valve s' = valve s \<Longrightarrow> countdown_inv s' = countdown_inv s"
  by (simp add: valve_def countdown_inv_def)

lemma inv_callback: "countdown_inv s \<Longrightarrow> countdown_inv (mqtt_state_callback n st s)"
  by (simp add: mqtt_state_callback_eq countdown_inv_def)

lemma inv_publish: "countdown_inv (mqtt_publish_relay_state n st s) = countdown_inv s"
  by (rule countdown_inv_valve) simp

lemma inv_log: "countdown_inv (esp_log_write l f a s) = countdown_inv s"
  by (rule countdown_inv_valve) simp

lemma inv_command: "countdown_inv s \<Longrightarrow> countdown_inv (handle_valve_command p s)"
  by (simp add: handle_valve_command_eq call_state_change_callback_eq inv_callback
      inv_publish inv_log)

lemma inv_mqtt: "countdown_inv s \<Longrightarrow> countdown_inv (mqtt_event_handler ev s)"
proof (cases ev)
  case MQTT_EVENT_CONNECTED
  assume "countdown_inv s"
  then show ?thesis
    unfolding MQTT_EVENT_CONNECTED connected_eq by (simp add: countdown_inv_def)
next
  case MQTT_EVENT_DISCONNECTED
  assume "countdown_inv s"
  then show ?thesis
    unfolding MQTT_EVENT_DISCONNECTED by (simp add: countdown_inv_def esp_log_write_def)
next
  case (MQTT_EVENT_DATA tp dt)
  assume "countdown_inv s"
  then show ?thesis
    unfolding MQTT_EVENT_DATA data_eq by (simp add: inv_command)
next
  case (MQTT_EVENT_ERROR eh)
  assume a: "countdown_inv s"
  have v: "valve (mqtt_event_handler (MQTT_EVENT_ERROR eh) s) = valve s"
    by (simp add: Let_def)
  show ?thesis
    unfolding MQTT_EVENT_ERROR using a by (simp only: countdown_inv_valve [OF v])
qed simp_all

lemma inv_tap: "countdown_inv (lv_btn_tap s)"
  by (simp add: lv_btn_tap_def toggle_event_cb_eq countdown_inv_def)

lemma tick_expire:
  assumes "timer_running s" and "seconds_remaining s = 1"
  shows "countdown_timer_cb s =
     s\<lparr>toggle_checked := (if lvgl_lock_result s then False else toggle_checked s),
       btn_label := (if lvgl_lock_result s then ''Turn Water On'' else btn_label s),
       published := published s @ (if mqtt_connected s then [state_msg False] else []),
       esp_log := esp_log s @ publish_warning s,
       timer_running := False, seconds_remaining := 300,
       countdown_timer := map_option (\<lambda>t. LV_TIMER_PAUSED) (countdown_timer s),
       timer_label := shown_time 300 s\<rparr>"
proof -
  have "int32 (seconds_remaining s - 1) \<le> 0"
    unfolding assms(2) by (simp add: int32_def)
  then show ?thesis
    by (rule countdown_timer_cb_expire [OF assms(1)])
qed

lemma tick_count:
  assumes "timer_running s" and "1 < seconds_remaining s" and "seconds_remaining s \<le> 300"
  shows "countdown_timer_cb s =
     s\<lparr>seconds_remaining := seconds_remaining s - 1,
       timer_label := shown_time (seconds_remaining s - 1) s\<rparr>"
proof -
  have w: "int32 (seconds_remaining s - 1) = seconds_remaining s - 1"
    using assms(2,3) by (simp add: int32_id)
  have "0 < int32 (seconds_remaining s - 1)"
    unfolding w using assms(2) by simp
  from countdown_timer_cb_count [OF assms(1) this] show ?thesis
    unfolding w .
qed

lemma tick_valve:
  assumes "countdown_inv s"
  shows "valve (countdown_timer_cb s) =
     (if \<not> timer_running s then (False, 300)
      else if seconds_remaining s = 1 then (False, 300)
      else (True, seconds_remaining s - 1))"
proof (cases "timer_running s")
  case False
  with assms show ?thesis
    by (simp add: countdown_timer_cb_idle valve_def countdown_inv_def)
next
  case True
  with assms have r: "0 < seconds_remaining s" "seconds_remaining s \<le> 300"
    by (simp_all add: countdown_inv_def)
  show ?thesis
  proof (cases "seconds_remaining s = 1")
    case one: True
    show ?thesis
      unfolding tick_expire [OF True one] using True one by (simp add: valve_def)
  next
    case False
    with r have "1 < seconds_remaining s" by simp
    from tick_count [OF True this r(2)] show ?thesis
      using True False by (simp add: valve_def)
  qed
qed

lemma inv_tick: "countdown_inv s \<Longrightarrow> countdown_inv (countdown_timer_cb s)"
  using tick_valve [of s] by (auto simp: valve_def countdown_inv_def split: if_splits)

lemma inv_step: "countdown_inv s \<Longrightarrow> countdown_inv (step e s)"
proof (cases e)
  case User_tap
  then show ?thesis by (simp add: inv_tap)
next
  case Timer_tick
  assume "countdown_inv s"
  with Timer_tick show ?thesis
    by (simp add: lv_timer_fire_def inv_tick split: option.splits lv_timer.splits)
next
  case (Mqtt ev)
  assume "countdown_inv s"
  with Mqtt show ?thesis by (simp add: inv_mqtt)
next
  case (Env_lock b)
  assume "countdown_inv s"
  with Env_lock show ?thesis by (simp add: countdown_inv_def)
next
  case (Env_msg_id i)
  assume "countdown_inv s"
  with Env_msg_id show ?thesis by (simp add: countdown_inv_def)
qed

lemma inv_run: "countdown_inv s \<Longrightarrow> countdown_inv (run evs s)"
  unfolding run_def by (induction evs arbitrary: s) (simp_all add: inv_step)

lemma inv_init: "countdown_inv init_state"
  by (simp add: countdown_inv_def init_state_def)

text \<open>
  C5. In every state the device reaches from its initial closed state, whatever taps,
  timer ticks, MQTT events and environment changes arrive, the remaining seconds lie
  between 0 and 300, are positive while the valve is open and are 300 while it is closed.
  A tick of the countdown leaves a closed valve as it is; on an open valve with more than
  one second left it takes exactly one second off and leaves the valve open; on an open
  valve with one second left the count reaches 0, the valve closes and the count is back
  at 300.
\<close>

theorem countdown_invariant:
  "0 \<le> seconds_remaining (run evs init_state) \<and>
   seconds_remaining (run evs init_state) \<le> 300 \<and>
   (if timer_running (run evs init_state)
    then 0 < seconds_remaining (run evs init_state)
    else seconds_remaining (run evs init_state) = 300) \<and>
   valve (countdown_timer_cb (run evs init_state)) =
     (if \<not> timer_running (run evs init_state) then (False, 300)
      else if seconds_remaining (run evs init_state) = 1 then (False, 300)
      else (True, seconds_remaining (run evs init_state) - 1))"
proof -
  have inv: "countdown_inv (run evs init_state)"
    by (rule inv_run [OF inv_init])
  from tick_valve [OF inv] have
    "valve (countdown_timer_cb (run evs init_state)) =
     (if \<not> timer_running (run evs init_state) then (False, 300)
      else if seconds_remaining (run evs init_state) = 1 then (False, 300)
      else (True, seconds_remaining (run evs init_state) - 1))" .
  with inv show ?thesis
    by (simp add: countdown_inv_def)
qed


subsection \<open>Opening and closing\<close>

lemma switch_callback:
  "timer_running (mqtt_state_callback n st s) = timer_running s \<or>
   seconds_remaining (mqtt_state_callback n st s) = 300"
  by (simp add: mqtt_state_callback_eq)

lemma publish_keeps [simp]:
  "toggle_checked (mqtt_publish_relay_state n st s) = toggle_checked s"
  "btn_label (mqtt_publish_relay_state n st s) = btn_label s"
  "timer_label (mqtt_publish_relay_state n st s) = timer_label s"
  "countdown_timer (mqtt_publish_relay_state n st s) = countdown_timer s"
  "seconds_remaining (mqtt_publish_relay_state n st s) = seconds_remaining s"
  "timer_running (mqtt_publish_relay_state n st s) = timer_running s"
  "mqtt_connected (mqtt_publish_relay_state n st s) = mqtt_connected s"
  "state_change_callback (mqtt_publish_relay_state n st s) = state_change_callback s"
  "subscribed (mqtt_publish_relay_state n st s) = subscribed s"
  "lvgl_lock_result (mqtt_publish_relay_state n st s) = lvgl_lock_result s"
  "publish_msg_id (mqtt_publish_relay_state n st s) = publish_msg_id s"
  by (simp_all add: mqtt_publish_relay_state_eq)

lemma publish_adds [simp]:
  "published (mqtt_publish_relay_state n st s) =
     published s @ (if mqtt_connected s then [state_msg st] else [])"
  "esp_log (mqtt_publish_relay_state n st s) = esp_log s @ publish_warning s"
  by (simp_all add: mqtt_publish_relay_state_eq)

lemma switch_command:
  "timer_running (handle_valve_command p s) = timer_running s \<or>
   seconds_remaining (handle_valve_command p s) = 300"
proof -
  have b: "timer_running (call_state_change_callback n st (mqtt_publish_relay_state n st s))
             = timer_running s \<or>
           seconds_remaining (call_state_change_callback n st (mqtt_publish_relay_state n st s))
             = 300" for st n
    using switch_callback [of n st "mqtt_publish_relay_state n st s"]
    by (simp add: call_state_change_callback_eq)
  show ?thesis
    using b [of 1 True] b [of 1 False]
    by (simp add: handle_valve_command_eq esp_log_write_def)
qed

lemma switch_mqtt:
  "timer_running (mqtt_event_handler ev s) = timer_running s \<or>
   seconds_remaining (mqtt_event_handler ev s) = 300"
proof (cases ev)
  case MQTT_EVENT_CONNECTED
  show ?thesis unfolding MQTT_EVENT_CONNECTED connected_eq by simp
next
  case MQTT_EVENT_DISCONNECTED
  show ?thesis unfolding MQTT_EVENT_DISCONNECTED by (simp add: esp_log_write_def)
next
  case (MQTT_EVENT_DATA tp dt)
  show ?thesis unfolding MQTT_EVENT_DATA data_eq using switch_command [of dt s] by simp
next
  case (MQTT_EVENT_ERROR eh)
  have "valve (mqtt_event_handler (MQTT_EVENT_ERROR eh) s) = valve s"
    by (simp add: Let_def)
  then show ?thesis unfolding MQTT_EVENT_ERROR by (simp add: valve_def)
qed simp_all

lemma switch_tick:
  "timer_running (countdown_timer_cb s) = timer_running s \<or>
   seconds_remaining (countdown_timer_cb s) = 300"
proof (cases "timer_running s")
  case False
  then show ?thesis by (simp add: countdown_timer_cb_idle)
next
  case True
  show ?thesis
  proof (cases "int32 (seconds_remaining s - 1) \<le> 0")
    case le: True
    show ?thesis unfolding countdown_timer_cb_expire [OF True le] by simp
  next
    case False
    then have "0 < int32 (seconds_remaining s - 1)" by simp
    from countdown_timer_cb_count [OF True this] show ?thesis using True by simp
  qed
qed

lemma switch_step:
  "timer_running (step e s) = timer_running s \<or> seconds_remaining (step e s) = 300"
proof (cases e)
  case User_tap
  show ?thesis unfolding User_tap by (simp add: lv_btn_tap_def toggle_event_cb_eq)
next
  case Timer_tick
  show ?thesis unfolding Timer_tick using switch_tick [of s]
    by (simp add: lv_timer_fire_def split: option.splits lv_timer.splits)
next
  case (Mqtt ev)
  show ?thesis unfolding Mqtt using switch_mqtt [of ev s] by simp
qed simp_all

text \<open>
  C7. Whatever event makes the valve change between open and closed (a tap of the user,
  a command of the broker, the expiry of the countdown), the state it leaves has 300
  remaining seconds; \<open>stop_countdown\<close> always leaves a closed valve with 300 seconds and
  \<open>start_countdown\<close> an open valve with 300 seconds.
\<close>

theorem reset_on_close_and_open:
  "(timer_running (step e s) = timer_running s \<or> seconds_remaining (step e s) = 300) \<and>
   valve (stop_countdown s) = (False, 300) \<and>
   valve (start_countdown s) = (True, 300)"
  using switch_step [of e s]
  by (simp add: valve_def start_countdown_eq stop_countdown_eq)


theorem reset_on_close_and_open_witness:
  "timer_running (step User_tap init_state) \<and>
   \<not> timer_running (step User_tap (step User_tap init_state)) \<and>
   seconds_remaining (step User_tap (step User_tap init_state)) = 300"
proof -
  have a: "timer_running (step User_tap init_state)"
    by (simp add: lv_btn_tap_def toggle_event_cb_eq init_state_def)
  have b: "\<not> timer_running (step User_tap (step User_tap init_state))"
    by (simp add: lv_btn_tap_def toggle_event_cb_eq init_state_def)
  from reset_on_close_and_open [of User_tap "step User_tap init_state"] a b
  show ?thesis by simp
qed

subsection \<open>Counting down\<close>

lemma run_Cons: "run (e # evs) s = run evs (step e s)"
  by (simp add: run_def)

lemma run_snoc: "run (evs @ [e]) s = step e (run evs s)"
  by (simp add: run_def)

lemma ticks_open:
  "timer_running s \<Longrightarrow> countdown_timer s = Some LV_TIMER_ACTIVE \<Longrightarrow>
   int n < seconds_remaining s \<Longrightarrow> seconds_remaining s \<le> 300 \<Longrightarrow>
   run (replicate n Timer_tick) s =
     s\<lparr>seconds_remaining := seconds_remaining s - int n,
       timer_label := (if n = 0 then timer_label s
                       else shown_time (seconds_remaining s - int n) s)\<rparr>"
proof (induction n arbitrary: s)
  case 0
  show ?case by (simp add: run_def)
next
  case (Suc n)
  let ?s1 = "s\<lparr>seconds_remaining := seconds_remaining s - 1,
               timer_label := shown_time (seconds_remaining s - 1) s\<rparr>"
  from Suc.prems have gt: "1 < seconds_remaining s" by simp
  have first: "step Timer_tick s = ?s1"
    using Suc.prems(2) tick_count [OF Suc.prems(1) gt Suc.prems(4)]
    by (simp add: lv_timer_fire_def)
  have "run (replicate n Timer_tick) ?s1 =
     ?s1\<lparr>seconds_remaining := seconds_remaining ?s1 - int n,
       timer_label := (if n = 0 then timer_label ?s1
                       else shown_time (seconds_remaining ?s1 - int n) ?s1)\<rparr>"
    using Suc.prems by (intro Suc.IH) simp_all
  then show ?case
    unfolding replicate_Suc run_Cons first
    by (simp add: shown_time_def) (simp add: algebra_simps)
qed


lemma tap_opens:
  "\<not> toggle_checked s \<Longrightarrow>
   step User_tap s =
     s\<lparr>toggle_checked := True, btn_label := ''Turn Water Off'',
       published := published s @ (if mqtt_connected s then [state_msg True] else []),
       esp_log := esp_log s @ publish_warning s,
       seconds_remaining := 300, timer_running := True,
       timer_label := shown_time 300 s,
       countdown_timer := Some LV_TIMER_ACTIVE\<rparr>"
  by (simp add: lv_btn_tap_def toggle_event_cb_eq shown_time_def publish_warning_def)

lemma ticks_after_tap:
  assumes "\<not> toggle_checked s" and "n < 300"
  shows "run (replicate n Timer_tick) (step User_tap s) =
     (step User_tap s)\<lparr>seconds_remaining := 300 - int n,
       timer_label := (if n = 0 then timer_label (step User_tap s)
                       else shown_time (300 - int n) (step User_tap s))\<rparr>"
proof -
  have a: "timer_running (step User_tap s)"
    and b: "countdown_timer (step User_tap s) = Some LV_TIMER_ACTIVE"
    and c: "seconds_remaining (step User_tap s) = 300"
    unfolding tap_opens [OF assms(1)] by simp_all
  from assms(2) have d: "int n < seconds_remaining (step User_tap s)"
    and e: "seconds_remaining (step User_tap s) \<le> 300"
    unfolding c by simp_all
  from ticks_open [OF a b d e] show ?thesis
    unfolding c .
qed

text \<open>
  C6. From a closed valve with MQTT connected, a tap of the user opens the valve with 300
  seconds, publishes exactly one \<open>ON\<close> and arms the timer. After \<open>n\<close> further ticks, for
  every \<open>n\<close> up to 299, the valve is open with \<open>300 - n\<close> seconds and nothing more was
  published, so each tick takes exactly one second off, down to one second left. The tick
  after these closes the valve, publishes exactly one \<open>OFF\<close>, resets the remaining seconds
  to 300 and pauses the timer.
\<close>

theorem open_countdown_close_scenario:
  assumes "\<not> timer_running s" and "\<not> toggle_checked s" and "mqtt_connected s"
  shows
    "valve (step User_tap s) = (True, 300) \<and>
     published (step User_tap s) = published s @ [state_msg True] \<and>
     countdown_timer (step User_tap s) = Some LV_TIMER_ACTIVE \<and>
     (\<forall>n \<le> 299.
        valve (run (replicate n Timer_tick) (step User_tap s)) = (True, 300 - int n) \<and>
        published (run (replicate n Timer_tick) (step User_tap s))
          = published s @ [state_msg True] \<and>
        countdown_timer (run (replicate n Timer_tick) (step User_tap s))
          = Some LV_TIMER_ACTIVE) \<and>
     valve (run (replicate 300 Timer_tick) (step User_tap s)) = (False, 300) \<and>
     published (run (replicate 300 Timer_tick) (step User_tap s))
       = published s @ [state_msg True, state_msg False] \<and>
     countdown_timer (run (replicate 300 Timer_tick) (step User_tap s))
       = Some LV_TIMER_PAUSED"
proof -
  let ?s1 = "step User_tap s"
  have t1: "valve ?s1 = (True, 300)"
    and t2: "published ?s1 = published s @ [state_msg True]"
    and t3: "countdown_timer ?s1 = Some LV_TIMER_ACTIVE"
    and t4: "mqtt_connected ?s1"
    unfolding tap_opens [OF assms(2)] using assms(3) by (simp_all add: valve_def)
  have mid: "valve (run (replicate n Timer_tick) ?s1) = (True, 300 - int n) \<and>
        published (run (replicate n Timer_tick) ?s1) = published s @ [state_msg True] \<and>
        countdown_timer (run (replicate n Timer_tick) ?s1) = Some LV_TIMER_ACTIVE \<and>
        mqtt_connected (run (replicate n Timer_tick) ?s1)"
    if "n \<le> 299" for n
  proof -
    from that have "n < 300" by simp
    from ticks_after_tap [OF assms(2) this] t1 t2 t3 t4 show ?thesis
      by (simp add: valve_def)
  qed
  let ?s2 = "run (replicate 299 Timer_tick) ?s1"
  from mid [of 299] have r: "timer_running ?s2" and one: "seconds_remaining ?s2 = 1"
    and p: "published ?s2 = published s @ [state_msg True]"
    and a: "countdown_timer ?s2 = Some LV_TIMER_ACTIVE" and c: "mqtt_connected ?s2"
    by (simp_all add: valve_def)
  have e: "(300::nat) = Suc 299" by simp
  have "replicate 300 Timer_tick = replicate 299 Timer_tick @ [Timer_tick]"
    by (subst e) (simp only: replicate_Suc replicate_append_same)
  then have last: "run (replicate 300 Timer_tick) ?s1 = countdown_timer_cb ?s2"
    using a by (simp only: run_snoc step.simps) (simp add: lv_timer_fire_def)
  have fin: "valve (countdown_timer_cb ?s2) = (False, 300) \<and>
     published (countdown_timer_cb ?s2) = published s @ [state_msg True, state_msg False] \<and>
     countdown_timer (countdown_timer_cb ?s2) = Some LV_TIMER_PAUSED"
    unfolding tick_expire [OF r one] using p a c by (simp add: valve_def)
  from t1 t2 t3 mid fin show ?thesis
    unfolding last by simp
qed

theorem open_countdown_close_scenario_witness:
  "valve (step User_tap (init_state\<lparr>mqtt_connected := True\<rparr>)) = (True, 300) \<and>
   valve (run (replicate 299 Timer_tick) (step User_tap (init_state\<lparr>mqtt_connected := True\<rparr>)))
     = (True, 1) \<and>
   valve (run (replicate 300 Timer_tick) (step User_tap (init_state\<lparr>mqtt_connected := True\<rparr>)))
     = (False, 300) \<and>
   published (run (replicate 300 Timer_tick) (step User_tap (init_state\<lparr>mqtt_connected := True\<rparr>)))
     = [state_msg True, state_msg False]"
proof -
  have a: "\<not> timer_running (init_state\<lparr>mqtt_connected := True\<rparr>)"
    and b: "\<not> toggle_checked (init_state\<lparr>mqtt_connected := True\<rparr>)"
    and c: "mqtt_connected (init_state\<lparr>mqtt_connected := True\<rparr>)"
    and d: "published (init_state\<lparr>mqtt_connected := True\<rparr>) = []"
    by (simp_all add: init_state_def)
  from open_countdown_close_scenario [OF a b c] have
    "valve (step User_tap (init_state\<lparr>mqtt_connected := True\<rparr>)) = (True, 300)"
    and "\<forall>n \<le> 299. valve (run (replicate n Timer_tick)
            (step User_tap (init_state\<lparr>mqtt_connected := True\<rparr>))) = (True, 300 - int n)"
    and "valve (run (replicate 300 Timer_tick)
            (step User_tap (init_state\<lparr>mqtt_connected := True\<rparr>))) = (False, 300)"
    and "published (run (replicate 300 Timer_tick)
            (step User_tap (init_state\<lparr>mqtt_connected := True\<rparr>)))
         = published (init_state\<lparr>mqtt_connected := True\<rparr>) @ [state_msg True, state_msg False]"
    by simp_all
  then show ?thesis
    unfolding d by simp
qed


subsection \<open>Transitions without a connection\<close>

declare mqtt_event_handler.simps(6) [simp del]

declare data_eq [simp]

lemma local_view_connected [simp]: "local_view (s\<lparr>mqtt_connected := b\<rparr>) = local_view s"
  by (simp add: local_view_def valve_def)

lemma local_view_publish [simp]: "local_view (mqtt_publish_relay_state n st s) = local_view s"
  by (simp add: local_view_def valve_def)

lemma local_view_log [simp]: "local_view (esp_log_write l f a s) = local_view s"
  by (simp add: local_view_def valve_def esp_log_write_def)

lemma log_keeps [simp]:
  "published (esp_log_write l f a s) = published s"
  "mqtt_connected (esp_log_write l f a s) = mqtt_connected s"
  "timer_running (esp_log_write l f a s) = timer_running s"
  "seconds_remaining (esp_log_write l f a s) = seconds_remaining s"
  by (simp_all add: esp_log_write_def)

lemma offline_tap:
  "local_view (lv_btn_tap (s\<lparr>mqtt_connected := False\<rparr>))
     = local_view (lv_btn_tap (s\<lparr>mqtt_connected := True\<rparr>)) \<and>
   published (lv_btn_tap (s\<lparr>mqtt_connected := False\<rparr>)) = published s \<and>
   esp_log (lv_btn_tap (s\<lparr>mqtt_connected := False\<rparr>)) = esp_log s"
  by (simp add: lv_btn_tap_def toggle_event_cb_eq local_view_def valve_def shown_time_def
      publish_warning_def)

lemma offline_timer_cb:
  "local_view (countdown_timer_cb (s\<lparr>mqtt_connected := False\<rparr>))
     = local_view (countdown_timer_cb (s\<lparr>mqtt_connected := True\<rparr>)) \<and>
   published (countdown_timer_cb (s\<lparr>mqtt_connected := False\<rparr>)) = published s \<and>
   esp_log (countdown_timer_cb (s\<lparr>mqtt_connected := False\<rparr>)) = esp_log s"
proof (cases "timer_running s")
  case False
  then show ?thesis by (simp add: countdown_timer_cb_idle)
next
  case True
  then have r: "timer_running (s\<lparr>mqtt_connected := b\<rparr>)" for b by simp
  show ?thesis
  proof (cases "int32 (seconds_remaining s - 1) \<le> 0")
    case le: True
    then have "int32 (seconds_remaining (s\<lparr>mqtt_connected := b\<rparr>) - 1) \<le> 0" for b by simp
    from countdown_timer_cb_expire [OF r this] show ?thesis
      by (simp add: local_view_def valve_def shown_time_def publish_warning_def)
  next
    case False
    then have "0 < int32 (seconds_remaining (s\<lparr>mqtt_connected := b\<rparr>) - 1)" for b by simp
    from countdown_timer_cb_count [OF r this] show ?thesis
      by (simp add: local_view_def valve_def shown_time_def)
  qed
qed

lemma offline_tick:
  "local_view (lv_timer_fire (s\<lparr>mqtt_connected := False\<rparr>))
     = local_view (lv_timer_fire (s\<lparr>mqtt_connected := True\<rparr>)) \<and>
   published (lv_timer_fire (s\<lparr>mqtt_connected := False\<rparr>)) = published s \<and>
   esp_log (lv_timer_fire (s\<lparr>mqtt_connected := False\<rparr>)) = esp_log s"
  using offline_timer_cb [of s]
  by (simp add: lv_timer_fire_def split: option.splits lv_timer.splits)

lemma callback_connected:
  "mqtt_state_callback n st (s\<lparr>mqtt_connected := b\<rparr>)
     = (mqtt_state_callback n st s)\<lparr>mqtt_connected := b\<rparr>"
  by (simp add: mqtt_state_callback_eq)

lemma callback_published [simp]:
  "published (call_state_change_callback n st s) = published s"
  "esp_log (call_state_change_callback n st s) = esp_log s"
  "mqtt_connected (call_state_change_callback n st s) = mqtt_connected s"
  by (simp_all add: call_state_change_callback_eq mqtt_state_callback_eq)

lemma callback_local:
  "local_view s' = local_view s \<Longrightarrow> lvgl_lock_result s' = lvgl_lock_result s \<Longrightarrow>
   state_change_callback s' = state_change_callback s \<Longrightarrow>
   local_view (call_state_change_callback n st s') = local_view (call_state_change_callback n st s)"
  by (simp add: call_state_change_callback_eq mqtt_state_callback_eq local_view_def valve_def)

lemma offline_command:
  "local_view (handle_valve_command p (s\<lparr>mqtt_connected := False\<rparr>))
     = local_view (handle_valve_command p (s\<lparr>mqtt_connected := True\<rparr>)) \<and>
   published (handle_valve_command p (s\<lparr>mqtt_connected := False\<rparr>)) = published s"
proof -
  have "local_view (call_state_change_callback n st
            (mqtt_publish_relay_state n st (s\<lparr>mqtt_connected := False\<rparr>)))
        = local_view (call_state_change_callback n st
            (mqtt_publish_relay_state n st (s\<lparr>mqtt_connected := True\<rparr>)))" for n st
    by (rule callback_local) simp_all
  then show ?thesis
    by (simp add: handle_valve_command_eq)
qed

text \<open>
  C9. While MQTT is disconnected, \<open>mqtt_publish_relay_state\<close> returns without doing
  anything: nothing is published and nothing is logged. A tap of the user, a tick of the
  countdown (its expiry included) and a command-topic message leave the valve, the
  timer and the three widgets exactly as the same event does with MQTT connected, and
  publish nothing; the tap and the tick leave no warning or error in the log either.
\<close>

theorem disconnected_transitions_stay_local:
  "mqtt_publish_relay_state n st (s\<lparr>mqtt_connected := False\<rparr>)
     = s\<lparr>mqtt_connected := False\<rparr> \<and>
   local_view (step User_tap (s\<lparr>mqtt_connected := False\<rparr>))
     = local_view (step User_tap (s\<lparr>mqtt_connected := True\<rparr>)) \<and>
   published (step User_tap (s\<lparr>mqtt_connected := False\<rparr>)) = published s \<and>
   esp_log (step User_tap (s\<lparr>mqtt_connected := False\<rparr>)) = esp_log s \<and>
   local_view (step Timer_tick (s\<lparr>mqtt_connected := False\<rparr>))
     = local_view (step Timer_tick (s\<lparr>mqtt_connected := True\<rparr>)) \<and>
   published (step Timer_tick (s\<lparr>mqtt_connected := False\<rparr>)) = published s \<and>
   esp_log (step Timer_tick (s\<lparr>mqtt_connected := False\<rparr>)) = esp_log s \<and>
   local_view (step (Mqtt (MQTT_EVENT_DATA tp dt)) (s\<lparr>mqtt_connected := False\<rparr>))
     = local_view (step (Mqtt (MQTT_EVENT_DATA tp dt)) (s\<lparr>mqtt_connected := True\<rparr>)) \<and>
   published (step (Mqtt (MQTT_EVENT_DATA tp dt)) (s\<lparr>mqtt_connected := False\<rparr>))
     = published s"
proof -
  have "mqtt_publish_relay_state n st (s\<lparr>mqtt_connected := False\<rparr>)
          = s\<lparr>mqtt_connected := False\<rparr>"
    by (simp add: mqtt_publish_relay_state_def mqtt_is_connected_def)
  moreover have
    "local_view (step (Mqtt (MQTT_EVENT_DATA tp dt)) (s\<lparr>mqtt_connected := False\<rparr>))
       = local_view (step (Mqtt (MQTT_EVENT_DATA tp dt)) (s\<lparr>mqtt_connected := True\<rparr>)) \<and>
     published (step (Mqtt (MQTT_EVENT_DATA tp dt)) (s\<lparr>mqtt_connected := False\<rparr>))
       = published s"
    using offline_command [of dt s] by (simp add: data_eq)
  ultimately show ?thesis
    using offline_tap [of s] offline_tick [of s] by simp
qed


subsection \<open>Who publishes the valve state\<close>

lemma command_of_ON [simp]: "command_of ''ON'' = ''ON''"
  and command_of_OFF [simp]: "command_of ''OFF'' = ''OFF''"
  by (simp_all add: command_of_def cstr_def)

lemma command_publishes:
  "published (handle_valve_command p s) =
     published s @
       (if mqtt_connected s \<and> command_of p = ''ON'' then [state_msg True]
        else if mqtt_connected s \<and> command_of p = ''OFF'' then [state_msg False]
        else [])"
  by (simp add: handle_valve_command_eq)

lemma tap_publishes:
  "published (lv_btn_tap s) =
     published s @ (if mqtt_connected s then [state_msg (\<not> toggle_checked s)] else [])"
  "timer_running (lv_btn_tap s) = (\<not> toggle_checked s)"
  by (simp_all add: lv_btn_tap_def toggle_event_cb_eq)

lemma toggle_event_keeps_checked: "toggle_checked (toggle_event_cb code s) = toggle_checked s"
  by (cases code) (simp_all add: toggle_event_cb_eq, simp add: toggle_event_cb_def)

text \<open>
  C1, as the code has it. A command-topic message \<open>ON\<close> or \<open>OFF\<close> publishes the commanded
  state, retained, to the state topic whenever MQTT is connected (the confirmation of the
  command), exactly as a tap of the user publishes the new state of the valve and as the
  expiry of the countdown publishes \<open>OFF\<close>; while MQTT is disconnected none of them
  publishes. The toggle callback never changes the checked state of the toggle button.
\<close>

theorem state_published_for_every_origin:
  "published (step (Mqtt (MQTT_EVENT_DATA COMMAND_TOPIC ''ON'')) s)
     = published s @ (if mqtt_connected s then [state_msg True] else []) \<and>
   published (step (Mqtt (MQTT_EVENT_DATA COMMAND_TOPIC ''OFF'')) s)
     = published s @ (if mqtt_connected s then [state_msg False] else []) \<and>
   published (step User_tap s)
     = published s @ (if mqtt_connected s then [state_msg (timer_running (step User_tap s))]
                      else []) \<and>
   (timer_running s \<and> seconds_remaining s = 1 \<longrightarrow>
      \<not> timer_running (countdown_timer_cb s) \<and>
      published (countdown_timer_cb s)
        = published s @ (if mqtt_connected s then [state_msg False] else [])) \<and>
   toggle_checked (toggle_event_cb code s) = toggle_checked s"
proof -
  have "\<not> timer_running (countdown_timer_cb s) \<and>
      published (countdown_timer_cb s)
        = published s @ (if mqtt_connected s then [state_msg False] else [])"
    if "timer_running s" and "seconds_remaining s = 1"
    unfolding tick_expire [OF that] by simp
  then show ?thesis
    by (simp add: command_publishes tap_publishes toggle_event_keeps_checked)
qed

theorem state_published_for_every_origin_witness:
  "timer_running ((step User_tap init_state)\<lparr>seconds_remaining := 1, mqtt_connected := True\<rparr>) \<and>
   \<not> timer_running (countdown_timer_cb
        ((step User_tap init_state)\<lparr>seconds_remaining := 1, mqtt_connected := True\<rparr>)) \<and>
   published (countdown_timer_cb
        ((step User_tap init_state)\<lparr>seconds_remaining := 1, mqtt_connected := True\<rparr>))
     = [state_msg False]"
proof -
  let ?s = "(step User_tap init_state)\<lparr>seconds_remaining := 1, mqtt_connected := True\<rparr>"
  have a: "timer_running ?s" and b: "seconds_remaining ?s = 1" and c: "mqtt_connected ?s"
    and d: "published ?s = []"
    by (simp_all add: tap_publishes init_state_def)
  from state_published_for_every_origin [of ?s] a b c d show ?thesis
    by simp
qed

text \<open>
  Against the sentence of the specification: with MQTT connected and the valve closed,
  the command \<open>ON\<close> opens the valve and publishes \<open>ON\<close> to the state topic.
\<close>

theorem remote_command_publishes_state:
  "published (init_state\<lparr>mqtt_connected := True\<rparr>) = [] \<and>
   \<not> timer_running (init_state\<lparr>mqtt_connected := True\<rparr>) \<and>
   timer_running
     (step (Mqtt (MQTT_EVENT_DATA ''water_valve/set'' ''ON'')) (init_state\<lparr>mqtt_connected := True\<rparr>)) \<and>
   published
     (step (Mqtt (MQTT_EVENT_DATA ''water_valve/set'' ''ON'')) (init_state\<lparr>mqtt_connected := True\<rparr>))
     = [\<lparr>topic = ''water_valve/state'', data = ''ON'', qos = 1, retain = True\<rparr>]"
  by (simp add: COMMAND_TOPIC_def [symmetric] command_publishes handle_valve_command_eq
      call_state_change_callback_eq mqtt_state_callback_eq init_state_def state_msg_def
      STATE_TOPIC_def)


subsection \<open>Repeated commands\<close>

declare mqtt_event_handler.simps(1) [simp del]

declare connected_eq [simp]

lemma same_field:
  "toggle_checked s = c \<Longrightarrow> btn_label s = l \<Longrightarrow> s\<lparr>toggle_checked := c, btn_label := l\<rparr> = s"
  by auto

lemma callback_same_state:
  assumes "ui_consistent s" and "st = timer_running s"
  shows "call_state_change_callback n st s = s"
proof (cases "state_change_callback s = None \<or> \<not> lvgl_lock_result s")
  case True
  then show ?thesis
    by (auto simp: call_state_change_callback_eq mqtt_state_callback_eq)
next
  case False
  from assms have "toggle_checked s = st"
    and "btn_label s = (if st then ''Turn Water Off'' else ''Turn Water On'')"
    by (simp_all add: ui_consistent_def)
  then have "s\<lparr>toggle_checked := st,
               btn_label := (if st then ''Turn Water Off'' else ''Turn Water On'')\<rparr> = s"
    by (rule same_field)
  with False assms(2) show ?thesis
    by (simp add: call_state_change_callback_eq mqtt_state_callback_eq)
qed

lemma ui_consistent_publish [simp]:
  "ui_consistent (mqtt_publish_relay_state n st s) = ui_consistent s"
  by (simp add: ui_consistent_def)

lemma duplicate_command:
  assumes "ui_consistent s" and "st = timer_running s"
  shows "call_state_change_callback n st (mqtt_publish_relay_state n st s)
           = mqtt_publish_relay_state n st s"
  by (rule callback_same_state) (simp_all add: assms)

lemma ui_tap: "ui_consistent (lv_btn_tap s)"
  by (simp add: lv_btn_tap_def toggle_event_cb_eq ui_consistent_def)

lemma ui_tick:
  assumes "ui_consistent s" and "lvgl_lock_result s"
  shows "ui_consistent (countdown_timer_cb s)"
proof (cases "timer_running s")
  case False
  with assms show ?thesis by (simp add: countdown_timer_cb_idle)
next
  case True
  show ?thesis
  proof (cases "int32 (seconds_remaining s - 1) \<le> 0")
    case le: True
    show ?thesis
      unfolding countdown_timer_cb_expire [OF True le] using assms
      by (simp add: ui_consistent_def)
  next
    case False
    then have "0 < int32 (seconds_remaining s - 1)" by simp
    from countdown_timer_cb_count [OF True this] assms show ?thesis
      by (simp add: ui_consistent_def)
  qed
qed

lemma ui_callback:
  "ui_consistent s \<Longrightarrow> ui_consistent (call_state_change_callback n st s)"
  by (simp add: call_state_change_callback_eq mqtt_state_callback_eq ui_consistent_def)

lemma ui_log [simp]: "ui_consistent (esp_log_write l f a s) = ui_consistent s"
  by (simp add: ui_consistent_def esp_log_write_def)

lemma ui_log_error [simp]: "ui_consistent (log_error_if_nonzero m c s) = ui_consistent s"
  by (simp add: log_error_if_nonzero_def)

lemma ui_command: "ui_consistent s \<Longrightarrow> ui_consistent (handle_valve_command p s)"
  by (simp add: handle_valve_command_eq ui_callback)

lemma ui_mqtt: "ui_consistent s \<Longrightarrow> ui_consistent (mqtt_event_handler ev s)"
proof (cases ev)
  case MQTT_EVENT_CONNECTED
  assume "ui_consistent s"
  then show ?thesis
    unfolding MQTT_EVENT_CONNECTED connected_eq by (simp add: ui_consistent_def)
next
  case MQTT_EVENT_DISCONNECTED
  assume "ui_consistent s"
  then show ?thesis
    unfolding MQTT_EVENT_DISCONNECTED by (simp add: ui_consistent_def esp_log_write_def)
next
  case (MQTT_EVENT_DATA tp dt)
  assume "ui_consistent s"
  then show ?thesis
    unfolding MQTT_EVENT_DATA by (simp add: ui_command)
next
  case (MQTT_EVENT_ERROR eh)
  assume "ui_consistent s"
  then show ?thesis
    unfolding MQTT_EVENT_ERROR by (simp add: Let_def)
qed simp_all

lemma lock_kept:
  "lvgl_lock_result (lv_btn_tap s) = lvgl_lock_result s"
  "lvgl_lock_result (countdown_timer_cb s) = lvgl_lock_result s"
  "lvgl_lock_result (mqtt_event_handler ev s) = lvgl_lock_result s"
proof -
  show "lvgl_lock_result (lv_btn_tap s) = lvgl_lock_result s"
    by (simp add: lv_btn_tap_def toggle_event_cb_eq)
  show "lvgl_lock_result (countdown_timer_cb s) = lvgl_lock_result s"
  proof (cases "timer_running s")
    case False
    then show ?thesis by (simp add: countdown_timer_cb_idle)
  next
    case True
    show ?thesis
    proof (cases "int32 (seconds_remaining s - 1) \<le> 0")
      case le: True
      show ?thesis unfolding countdown_timer_cb_expire [OF True le] by simp
    next
      case False
      then have "0 < int32 (seconds_remaining s - 1)" by simp
      from countdown_timer_cb_count [OF True this] show ?thesis by simp
    qed
  qed
  have "lvgl_lock_result (handle_valve_command p s) = lvgl_lock_result s" for p
    by (simp add: handle_valve_command_eq call_state_change_callback_eq mqtt_state_callback_eq
        esp_log_write_def)
  then show "lvgl_lock_result (mqtt_event_handler ev s) = lvgl_lock_result s"
    by (cases ev) (simp_all add: connected_eq esp_log_write_def log_error_if_nonzero_def Let_def)
qed

lemma ui_step:
  assumes "ui_consistent s" and "lvgl_lock_result s" and "e \<noteq> Env_lock False"
  shows "ui_consistent (step e s) \<and> lvgl_lock_result (step e s)"
proof (cases e)
  case User_tap
  with assms show ?thesis by (simp add: ui_tap lock_kept)
next
  case Timer_tick
  with assms show ?thesis
    by (simp add: lv_timer_fire_def ui_tick lock_kept split: option.splits lv_timer.splits)
next
  case (Mqtt ev)
  with assms show ?thesis by (simp add: ui_mqtt lock_kept)
next
  case (Env_lock b)
  with assms show ?thesis by (simp add: ui_consistent_def)
next
  case (Env_msg_id i)
  with assms show ?thesis by (simp add: ui_consistent_def)
qed

lemma ui_run:
  "ui_consistent s \<Longrightarrow> lvgl_lock_result s \<Longrightarrow> Env_lock False \<notin> set evs \<Longrightarrow>
   ui_consistent (run evs s) \<and> lvgl_lock_result (run evs s)"
proof (induction evs arbitrary: s)
  case Nil
  then show ?case by (simp add: run_def)
next
  case (Cons e evs)
  from Cons.prems have "e \<noteq> Env_lock False" by auto
  from ui_step [OF Cons.prems(1,2) this] Cons.prems(3) show ?case
    unfolding run_Cons by (intro Cons.IH) simp_all
qed

lemma ui_reachable:
  "Env_lock False \<notin> set evs \<Longrightarrow> ui_consistent (run evs init_state)"
  using ui_run [of init_state evs] by (simp add: ui_consistent_def init_state_def)

text \<open>
  C2, as the code has it. When the toggle button and its label agree with the valve (as
  they do in every state the device reaches while the display lock can be taken), a
  command \<open>ON\<close> that arrives while the valve is open, and a command \<open>OFF\<close> that arrives
  while it is closed, does what the bare publish of the commanded state does and nothing
  else: the valve, the remaining seconds, the timer and the widgets stay as they are and
  the countdown is not restarted, but the commanded state is published once more when
  MQTT is connected. The timer callback on a closed valve does nothing at all. A tap of
  the user is never a repeated request: it always inverts the valve.
\<close>

theorem repeated_command_only_publishes:
  assumes "ui_consistent s"
  shows
    "(if timer_running s
      then step (Mqtt (MQTT_EVENT_DATA COMMAND_TOPIC ''ON'')) s = mqtt_publish_relay_state 1 True s
      else step (Mqtt (MQTT_EVENT_DATA COMMAND_TOPIC ''OFF'')) s
             = mqtt_publish_relay_state 1 False s \<and>
           countdown_timer_cb s = s) \<and>
     local_view (mqtt_publish_relay_state n st s) = local_view s \<and>
     published (mqtt_publish_relay_state n st s)
       = published s @ (if mqtt_connected s then [state_msg st] else []) \<and>
     timer_running (step User_tap s) = (\<not> timer_running s)"
proof -
  have "step (Mqtt (MQTT_EVENT_DATA COMMAND_TOPIC ''ON'')) s = mqtt_publish_relay_state 1 True s"
    if "timer_running s"
    using duplicate_command [OF assms, of True 1] that by (simp add: handle_valve_command_eq)
  moreover have
    "step (Mqtt (MQTT_EVENT_DATA COMMAND_TOPIC ''OFF'')) s = mqtt_publish_relay_state 1 False s"
    if "\<not> timer_running s"
    using duplicate_command [OF assms, of False 1] that by (simp add: handle_valve_command_eq)
  moreover have "timer_running (step User_tap s) = (\<not> timer_running s)"
    using assms by (simp add: tap_publishes ui_consistent_def)
  ultimately show ?thesis by (simp add: countdown_timer_cb_idle)
qed

theorem repeated_command_only_publishes_witness:
  "timer_running (run [Mqtt MQTT_EVENT_CONNECTED, User_tap] init_state) \<and>
   local_view (step (Mqtt (MQTT_EVENT_DATA COMMAND_TOPIC ''ON''))
                 (run [Mqtt MQTT_EVENT_CONNECTED, User_tap] init_state))
     = local_view (run [Mqtt MQTT_EVENT_CONNECTED, User_tap] init_state) \<and>
   published (step (Mqtt (MQTT_EVENT_DATA COMMAND_TOPIC ''ON''))
                 (run [Mqtt MQTT_EVENT_CONNECTED, User_tap] init_state))
     = published (run [Mqtt MQTT_EVENT_CONNECTED, User_tap] init_state) @ [state_msg True]"
proof -
  let ?s = "run [Mqtt MQTT_EVENT_CONNECTED, User_tap] init_state"
  have u: "ui_consistent ?s"
    by (rule ui_reachable) simp
  have r: "timer_running ?s" and c: "mqtt_connected ?s"
    by (simp_all add: run_def tap_publishes lv_btn_tap_def toggle_event_cb_eq connected_eq
        init_state_def)
  from repeated_command_only_publishes [OF u, of 1 True] r c show ?thesis
    by simp
qed

text \<open>
  Against the sentence of the specification: with MQTT connected and the valve opened by
  the user, a command \<open>ON\<close> leaves the valve open with its 300 seconds and publishes
  \<open>ON\<close> again.
\<close>

theorem repeated_command_republishes:
  "valve (step User_tap (init_state\<lparr>mqtt_connected := True\<rparr>)) = (True, 300) \<and>
   published (step User_tap (init_state\<lparr>mqtt_connected := True\<rparr>))
     = [\<lparr>topic = ''water_valve/state'', data = ''ON'', qos = 1, retain = True\<rparr>] \<and>
   valve (step (Mqtt (MQTT_EVENT_DATA ''water_valve/set'' ''ON''))
            (step User_tap (init_state\<lparr>mqtt_connected := True\<rparr>))) = (True, 300) \<and>
   published (step (Mqtt (MQTT_EVENT_DATA ''water_valve/set'' ''ON''))
                (step User_tap (init_state\<lparr>mqtt_connected := True\<rparr>)))
     = [\<lparr>topic = ''water_valve/state'', data = ''ON'', qos = 1, retain = True\<rparr>,
        \<lparr>topic = ''water_valve/state'', data = ''ON'', qos = 1, retain = True\<rparr>]"
  by (simp add: COMMAND_TOPIC_def [symmetric] command_publishes handle_valve_command_eq
      call_state_change_callback_eq mqtt_state_callback_eq lv_btn_tap_def toggle_event_cb_eq
      init_state_def state_msg_def STATE_TOPIC_def valve_def)


subsection \<open>What is published at connect time\<close>

lemma discovery_fits: "take 511 discovery_message = discovery_message"
proof -
  have "length discovery_message = 397"
    by (simp add: discovery_message_def STATE_TOPIC_def COMMAND_TOPIC_def AVAILABILITY_TOPIC_def
        DEVICE_NAME_def DEVICE_MODEL_def DEVICE_MANUFACTURER_def)
  then show ?thesis by simp
qed

lemma connect_published:
  "published (mqtt_event_handler MQTT_EVENT_CONNECTED s) =
     published s @
       [\<lparr>topic = AVAILABILITY_TOPIC, data = ''online'', qos = 1, retain = True\<rparr>,
        \<lparr>topic = DISCOVERY_TOPIC, data = discovery_message, qos = 1, retain = True\<rparr>,
        state_msg False]"
  by (simp add: discovery_fits)

lemma timer_cb_published:
  "published (countdown_timer_cb s) = published s \<or>
   timer_running s \<and> int32 (seconds_remaining s - 1) \<le> 0"
proof (cases "timer_running s")
  case False
  then show ?thesis by (simp add: countdown_timer_cb_idle)
next
  case True
  show ?thesis
  proof (cases "int32 (seconds_remaining s - 1) \<le> 0")
    case le: True
    with True show ?thesis by simp
  next
    case False
    then have "0 < int32 (seconds_remaining s - 1)" by simp
    from countdown_timer_cb_count [OF True this] show ?thesis by simp
  qed
qed

lemma tick_published:
  "published (lv_timer_fire s) = published s \<or>
   timer_running s \<and> int32 (seconds_remaining s - 1) \<le> 0"
  using timer_cb_published [of s]
  by (simp add: lv_timer_fire_def split: option.splits lv_timer.splits)

lemma other_events_silent:
  "published (mqtt_event_handler MQTT_EVENT_DISCONNECTED s) = published s"
  "published (mqtt_event_handler MQTT_EVENT_SUBSCRIBED s) = published s"
  "published (mqtt_event_handler MQTT_EVENT_UNSUBSCRIBED s) = published s"
  "published (mqtt_event_handler MQTT_EVENT_PUBLISHED s) = published s"
  "published (mqtt_event_handler (MQTT_EVENT_ERROR eh) s) = published s"
  "published (mqtt_event_handler MQTT_EVENT_OTHER s) = published s"
  by (simp_all add: esp_log_write_def log_error_if_nonzero_def Let_def)

lemma publish_sites:
  "published (step e s) = published s \<or> e = User_tap \<or> e = Mqtt MQTT_EVENT_CONNECTED \<or>
   (e = Timer_tick \<and> timer_running s \<and> int32 (seconds_remaining s - 1) \<le> 0) \<or>
   (\<exists>dt. e = Mqtt (MQTT_EVENT_DATA COMMAND_TOPIC dt) \<and>
         (command_of dt = ''ON'' \<or> command_of dt = ''OFF''))"
proof (cases e)
  case User_tap
  then show ?thesis by simp
next
  case Timer_tick
  then show ?thesis using tick_published [of s] by auto
next
  case (Mqtt ev)
  show ?thesis
  proof (cases ev)
    case MQTT_EVENT_CONNECTED
    with Mqtt show ?thesis by simp
  next
    case (MQTT_EVENT_DATA tp dt)
    with Mqtt show ?thesis
      by (simp add: command_publishes del: data_eq add: data_eq [of tp dt s])
  qed (simp_all add: Mqtt other_events_silent del: mqtt_event_handler.simps)
qed simp_all

lemma offline_silent:
  "published (step e (s\<lparr>mqtt_connected := False\<rparr>)) = published s \<or>
   e = Mqtt MQTT_EVENT_CONNECTED"
proof (cases e)
  case User_tap
  then show ?thesis by (simp add: tap_publishes)
next
  case Timer_tick
  then show ?thesis using offline_tick [of s] by simp
next
  case (Mqtt ev)
  show ?thesis
  proof (cases ev)
    case MQTT_EVENT_CONNECTED
    with Mqtt show ?thesis by simp
  next
    case (MQTT_EVENT_DATA tp dt)
    with Mqtt show ?thesis by (simp add: command_publishes)
  qed (simp_all add: Mqtt other_events_silent del: mqtt_event_handler.simps)
qed simp_all

text \<open>
  C3, as the code has it. At every connect the MQTT client publishes, on its own and in
  this order, the availability \<open>online\<close>, the discovery document and the valve state
  \<open>OFF\<close> on the state topic, whatever the valve is. Apart from the connect, a step
  publishes only when it is a tap of the user, the expiry of the countdown or a
  command-topic message \<open>ON\<close> or \<open>OFF\<close>; and while MQTT is disconnected no step but
  the connect publishes anything, so a skipped publish is never sent later.
\<close>

theorem state_publish_sites:
  "published (step (Mqtt MQTT_EVENT_CONNECTED) s) =
     published s @
       [\<lparr>topic = AVAILABILITY_TOPIC, data = ''online'', qos = 1, retain = True\<rparr>,
        \<lparr>topic = DISCOVERY_TOPIC, data = discovery_message, qos = 1, retain = True\<rparr>,
        state_msg False] \<and>
   (published (step e s) = published s \<or> e = User_tap \<or> e = Mqtt MQTT_EVENT_CONNECTED \<or>
    (e = Timer_tick \<and> timer_running s \<and> int32 (seconds_remaining s - 1) \<le> 0) \<or>
    (\<exists>dt. e = Mqtt (MQTT_EVENT_DATA COMMAND_TOPIC dt) \<and>
          (command_of dt = ''ON'' \<or> command_of dt = ''OFF''))) \<and>
   (published (step e (s\<lparr>mqtt_connected := False\<rparr>)) = published s \<or>
    e = Mqtt MQTT_EVENT_CONNECTED)"
  using connect_published [of s] publish_sites [of e s] offline_silent [of e s]
  by (simp only: step.simps)

text \<open>
  Against the sentence of the specification: the first connect of the device, with the
  valve closed and no transition made, publishes three messages, the last of them \<open>OFF\<close>
  on the state topic.
\<close>

theorem connect_publishes_valve_state:
  "map topic (published (step (Mqtt MQTT_EVENT_CONNECTED) init_state))
     = [''water_valve/status'', ''homeassistant/switch/water_valve/config'',
        ''water_valve/state''] \<and>
   last (published (step (Mqtt MQTT_EVENT_CONNECTED) init_state))
     = \<lparr>topic = ''water_valve/state'', data = ''OFF'', qos = 1, retain = True\<rparr> \<and>
   valve (step (Mqtt MQTT_EVENT_CONNECTED) init_state) = valve init_state"
  by (simp add: init_state_def state_msg_def STATE_TOPIC_def AVAILABILITY_TOPIC_def
      DISCOVERY_TOPIC_def valve_def)


subsection \<open>The retained state after a connect\<close>

lemma state_msg_fields [simp]:
  "topic (state_msg st) = STATE_TOPIC" "retain (state_msg st)"
  "data (state_msg st) = (if st then ''ON'' else ''OFF'')"
  by (simp_all add: state_msg_def)

lemma retained_last:
  "l \<noteq> [] \<Longrightarrow>
   (case l of [] \<Rightarrow> None | m # ms \<Rightarrow> Some (data (last (m # ms)))) = Some (data (last l))"
  by (cases l) simp_all

lemma retained_after_state_msg:
  assumes "published s' = ms @ [state_msg st]"
  shows "retained_state s' = Some (if st then ''ON'' else ''OFF'')"
proof -
  have f: "filter (\<lambda>m. topic m = STATE_TOPIC \<and> retain m) (published s')
       = filter (\<lambda>m. topic m = STATE_TOPIC \<and> retain m) ms @ [state_msg st]"
    unfolding assms by simp
  show ?thesis
    unfolding retained_state_def f by (subst retained_last) simp_all
qed

lemma retained_after_connect:
  "retained_state (mqtt_event_handler MQTT_EVENT_CONNECTED s) = Some ''OFF''"
proof -
  have "published (mqtt_event_handler MQTT_EVENT_CONNECTED s) =
     (published s @
       [\<lparr>topic = AVAILABILITY_TOPIC, data = ''online'', qos = 1, retain = True\<rparr>,
        \<lparr>topic = DISCOVERY_TOPIC, data = discovery_message, qos = 1, retain = True\<rparr>])
     @ [state_msg False]"
    by (simp add: connect_published del: connected_eq)
  from retained_after_state_msg [OF this] show ?thesis by simp
qed

lemma valve_connect [simp]: "valve (mqtt_event_handler MQTT_EVENT_CONNECTED s) = valve s"
  by (simp add: valve_def)

lemma reconnect_while_open:
  "timer_running (run [Mqtt MQTT_EVENT_CONNECTED, User_tap, Mqtt MQTT_EVENT_DISCONNECTED,
                       Mqtt MQTT_EVENT_CONNECTED] init_state) \<and>
   retained_state (run [Mqtt MQTT_EVENT_CONNECTED, User_tap, Mqtt MQTT_EVENT_DISCONNECTED,
                        Mqtt MQTT_EVENT_CONNECTED] init_state) = Some ''OFF''"
proof -
  let ?s3 = "run [Mqtt MQTT_EVENT_CONNECTED, User_tap, Mqtt MQTT_EVENT_DISCONNECTED] init_state"
  have run4: "run [Mqtt MQTT_EVENT_CONNECTED, User_tap, Mqtt MQTT_EVENT_DISCONNECTED,
                   Mqtt MQTT_EVENT_CONNECTED] init_state
              = mqtt_event_handler MQTT_EVENT_CONNECTED ?s3"
    by (simp add: run_def)
  have "timer_running ?s3"
    by (simp add: run_def esp_log_write_def tap_publishes init_state_def)
  then have "timer_running (mqtt_event_handler MQTT_EVENT_CONNECTED ?s3)"
    using valve_connect [of ?s3] by (simp only: valve_def prod.inject)
  then show ?thesis
    unfolding run4 by (simp only: retained_after_connect simp_thms)
qed

text \<open>
  C4. Whenever the MQTT client connects, the last message it publishes is \<open>OFF\<close> on the
  state topic, retained, whatever the valve is, so that \<open>OFF\<close> is the payload the broker
  then retains. \<open>mqtt_publish_all_relay_states\<close> is the publish of \<open>OFF\<close> whatever the
  valve is: it publishes \<open>OFF\<close> when MQTT is connected (and, like every publish of the
  state, nothing when it is not). The device reaches a state where the valve is open and
  the retained payload is \<open>OFF\<close>: connect, tap, disconnect, connect again.
\<close>

theorem connect_always_publishes_off:
  "last (published (step (Mqtt MQTT_EVENT_CONNECTED) s)) = state_msg False \<and>
   retained_state (step (Mqtt MQTT_EVENT_CONNECTED) s) = Some ''OFF'' \<and>
   valve (step (Mqtt MQTT_EVENT_CONNECTED) s) = valve s \<and>
   mqtt_publish_all_relay_states s = mqtt_publish_relay_state 1 False s \<and>
   published (mqtt_publish_all_relay_states s)
     = published s @ (if mqtt_connected s then [state_msg False] else []) \<and>
   (\<exists>evs. timer_running (run evs init_state) \<and>
          retained_state (run evs init_state) = Some ''OFF'')"
proof -
  have "last (published (step (Mqtt MQTT_EVENT_CONNECTED) s)) = state_msg False"
    by (simp add: connect_published del: connected_eq)
  moreover have "retained_state (step (Mqtt MQTT_EVENT_CONNECTED) s) = Some ''OFF''"
    by (simp add: retained_after_connect del: connected_eq)
  moreover have "valve (step (Mqtt MQTT_EVENT_CONNECTED) s) = valve s"
    by (simp del: connected_eq)
  moreover have "mqtt_publish_all_relay_states s = mqtt_publish_relay_state 1 False s"
    by (simp add: mqtt_publish_all_relay_states_def)
  moreover have "published (mqtt_publish_all_relay_states s)
     = published s @ (if mqtt_connected s then [state_msg False] else [])"
    by (simp add: mqtt_publish_all_relay_states_def)
  moreover have "\<exists>evs. timer_running (run evs init_state) \<and>
          retained_state (run evs init_state) = Some ''OFF''"
    using reconnect_while_open by blast
  ultimately show ?thesis by (simp only: simp_thms)
qed

subsection \<open>Command payloads\<close>

lemma unknown_command_dropped:
  "command_of p \<noteq> ''ON'' \<Longrightarrow> command_of p \<noteq> ''OFF'' \<Longrightarrow>
   handle_valve_command p s =
     s\<lparr>esp_log := esp_log s @ [(ESP_LOG_WARN, ''Unknown command: %s'', [Str (command_of p)])]\<rparr>"
  by (simp add: handle_valve_command_eq esp_log_write_def)

lemma command_exact_without_nul:
  "CHR 0x00 \<notin> set p \<Longrightarrow> (command_of p = ''ON'') = (p = ''ON'')"
  "CHR 0x00 \<notin> set p \<Longrightarrow> (command_of p = ''OFF'') = (p = ''OFF'')"
  by (simp_all add: command_of_short)

text \<open>
  C8, at the failing input. The command-topic payload of the four bytes \<open>O\<close>, \<open>N\<close>, NUL,
  \<open>X\<close> is not the string \<open>ON\<close>, yet the handler reads it as the C string \<open>ON\<close>: the
  valve opens, \<open>ON\<close> is published and no warning is logged.
\<close>

theorem nul_byte_payload_opens_valve:
  "[CHR ''O'', CHR ''N'', CHR 0x00, CHR ''X''] \<noteq> ''ON'' \<and>
   valve (init_state\<lparr>mqtt_connected := True\<rparr>) = (False, 300) \<and>
   valve (step (Mqtt (MQTT_EVENT_DATA ''water_valve/set'' [CHR ''O'', CHR ''N'', CHR 0x00, CHR ''X'']))
            (init_state\<lparr>mqtt_connected := True\<rparr>)) = (True, 300) \<and>
   published (step (Mqtt (MQTT_EVENT_DATA ''water_valve/set'' [CHR ''O'', CHR ''N'', CHR 0x00, CHR ''X'']))
                (init_state\<lparr>mqtt_connected := True\<rparr>))
     = [\<lparr>topic = ''water_valve/state'', data = ''ON'', qos = 1, retain = True\<rparr>] \<and>
   esp_log (step (Mqtt (MQTT_EVENT_DATA ''water_valve/set'' [CHR ''O'', CHR ''N'', CHR 0x00, CHR ''X'']))
              (init_state\<lparr>mqtt_connected := True\<rparr>)) = []"
proof -
  have c: "command_of [CHR ''O'', CHR ''N'', CHR 0x00, CHR ''X''] = ''ON''"
    by (simp add: command_of_def cstr_def)
  show ?thesis
    by (simp add: COMMAND_TOPIC_def [symmetric] handle_valve_command_eq c
        call_state_change_callback_eq mqtt_state_callback_eq init_state_def state_msg_def
        STATE_TOPIC_def valve_def publish_warning_def)
qed


subsection \<open>A tap and a command at the same time\<close>

lemma callback_on_open:
  "timer_running s \<Longrightarrow> seconds_remaining s = 300 \<Longrightarrow>
   valve (call_state_change_callback n True s) = (True, 300)"
  by (simp add: call_state_change_callback_eq mqtt_state_callback_eq valve_def)

lemma command_checks_button:
  "toggle_checked (handle_valve_command ''ON'' s)
     = (if lvgl_lock_result s \<and> state_change_callback s \<noteq> None then True
        else toggle_checked s)"
  by (auto simp: handle_valve_command_eq call_state_change_callback_eq mqtt_state_callback_eq)

lemma tap_valve:
  "valve (lv_btn_tap s) = (\<not> toggle_checked s, 300)"
  by (simp add: lv_btn_tap_def toggle_event_cb_eq valve_def)

lemma command_connected [simp]:
  "mqtt_connected (handle_valve_command p s) = mqtt_connected s"
  by (simp add: handle_valve_command_eq)

lemma tap_connected [simp]: "mqtt_connected (lv_btn_tap s) = mqtt_connected s"
  by (simp add: lv_btn_tap_def toggle_event_cb_eq)

text \<open>
  C10, as the code has it. The valve is closed and the toggle button unchecked; the user
  taps the button and the broker sends the command \<open>ON\<close>. Each path publishes on its
  own. The tap runs as one step under the display lock; the command is a publish followed
  by the update of the display under the same lock. When the tap comes first, or between
  the publish of the command and its update of the display, the valve ends open with 300
  seconds and \<open>ON\<close> is published twice when MQTT is connected, not at all when it is
  not. When the command is applied completely before the tap, its display update (lock
  taken, callback registered) has already checked the button, so the tap unchecks it and
  closes the valve: the valve ends closed with 300 seconds and \<open>ON\<close>, then \<open>OFF\<close> are
  published; without that display update the tap opens the valve as before.
\<close>

theorem tap_and_command_both_publish:
  assumes "\<not> timer_running s" and "\<not> toggle_checked s"
  shows
    "valve (step (Mqtt (MQTT_EVENT_DATA COMMAND_TOPIC ''ON'')) (step User_tap s)) = (True, 300) \<and>
     published (step (Mqtt (MQTT_EVENT_DATA COMMAND_TOPIC ''ON'')) (step User_tap s))
       = published s @ (if mqtt_connected s then [state_msg True, state_msg True] else []) \<and>
     step (Mqtt (MQTT_EVENT_DATA COMMAND_TOPIC ''ON'')) s
       = call_state_change_callback 1 True (mqtt_publish_relay_state 1 True s) \<and>
     valve (call_state_change_callback 1 True (step User_tap (mqtt_publish_relay_state 1 True s)))
       = (True, 300) \<and>
     published (call_state_change_callback 1 True
                  (step User_tap (mqtt_publish_relay_state 1 True s)))
       = published s @ (if mqtt_connected s then [state_msg True, state_msg True] else []) \<and>
     valve (step User_tap (step (Mqtt (MQTT_EVENT_DATA COMMAND_TOPIC ''ON'')) s))
       = (if lvgl_lock_result s \<and> state_change_callback s \<noteq> None
          then (False, 300) else (True, 300)) \<and>
     published (step User_tap (step (Mqtt (MQTT_EVENT_DATA COMMAND_TOPIC ''ON'')) s))
       = published s @
           (if mqtt_connected s
            then (if lvgl_lock_result s \<and> state_change_callback s \<noteq> None
                  then [state_msg True, state_msg False]
                  else [state_msg True, state_msg True])
            else [])"
proof -
  have tap: "valve (lv_btn_tap s') = (True, 300)"
    "published (lv_btn_tap s')
       = published s' @ (if mqtt_connected s' then [state_msg True] else [])"
    if "\<not> toggle_checked s'" for s'
    using that by (simp_all add: tap_valve tap_publishes)
  have a1: "valve (handle_valve_command ''ON'' (lv_btn_tap s)) = (True, 300)"
  proof -
    have "valve (call_state_change_callback n True
                   (mqtt_publish_relay_state n True (lv_btn_tap s))) = (True, 300)" for n
      using tap(1) [OF assms(2)] by (intro callback_on_open) (simp_all add: valve_def)
    then show ?thesis by (simp add: handle_valve_command_eq)
  qed
  have a2: "published (handle_valve_command ''ON'' (lv_btn_tap s))
       = published s @ (if mqtt_connected s then [state_msg True, state_msg True] else [])"
    by (simp add: command_publishes tap(2) [OF assms(2)])
  have b0: "\<not> toggle_checked (mqtt_publish_relay_state n True s)" for n
    using assms(2) by simp
  have b1: "valve (call_state_change_callback n True
                     (lv_btn_tap (mqtt_publish_relay_state n True s))) = (True, 300)" for n
    using tap(1) [OF b0 [of n]] by (intro callback_on_open) (simp_all add: valve_def)
  have b2: "published (call_state_change_callback n True
                         (lv_btn_tap (mqtt_publish_relay_state n True s)))
       = published s @ (if mqtt_connected s then [state_msg True, state_msg True] else [])" for n
    by (simp add: tap(2) [OF b0 [of n]])
  have c1: "valve (lv_btn_tap (handle_valve_command ''ON'' s))
       = (if lvgl_lock_result s \<and> state_change_callback s \<noteq> None
          then (False, 300) else (True, 300))"
    using assms(2) by (simp add: tap_valve command_checks_button)
  have c2: "published (lv_btn_tap (handle_valve_command ''ON'' s))
       = published s @
           (if mqtt_connected s
            then (if lvgl_lock_result s \<and> state_change_callback s \<noteq> None
                  then [state_msg True, state_msg False]
                  else [state_msg True, state_msg True])
            else [])"
    using assms(2) by (auto simp: tap_publishes command_publishes command_checks_button)
  have d: "handle_valve_command ''ON'' s
       = call_state_change_callback 1 True (mqtt_publish_relay_state 1 True s)"
    by (simp add: handle_valve_command_eq)
  from a1 a2 b1 [of 1] b2 [of 1] c1 c2 d show ?thesis
    by (simp only: step.simps data_eq if_True simp_thms)
qed

theorem tap_and_command_both_publish_witness:
  "valve (step (Mqtt (MQTT_EVENT_DATA COMMAND_TOPIC ''ON''))
            (step User_tap (init_state\<lparr>mqtt_connected := True\<rparr>))) = (True, 300) \<and>
   published (step (Mqtt (MQTT_EVENT_DATA COMMAND_TOPIC ''ON''))
                (step User_tap (init_state\<lparr>mqtt_connected := True\<rparr>)))
     = [state_msg True, state_msg True] \<and>
   valve (step User_tap (step (Mqtt (MQTT_EVENT_DATA COMMAND_TOPIC ''ON''))
            (init_state\<lparr>mqtt_connected := True\<rparr>))) = (False, 300) \<and>
   published (step User_tap (step (Mqtt (MQTT_EVENT_DATA COMMAND_TOPIC ''ON''))
                (init_state\<lparr>mqtt_connected := True\<rparr>)))
     = [state_msg True, state_msg False]"
proof -
  let ?s = "init_state\<lparr>mqtt_connected := True\<rparr>"
  have a: "\<not> timer_running ?s" and b: "\<not> toggle_checked ?s"
    and c: "mqtt_connected ?s" and d: "published ?s = []"
    and e: "lvgl_lock_result ?s" and f: "state_change_callback ?s \<noteq> None"
    by (simp_all add: init_state_def)
  note t = tap_and_command_both_publish [OF a b]
  note p1 = t [THEN conjunct1]
  note p2 = t [THEN conjunct2, THEN conjunct1]
  note p6 = t [THEN conjunct2, THEN conjunct2, THEN conjunct2, THEN conjunct2, THEN conjunct2,
    THEN conjunct1]
  note p7 = t [THEN conjunct2, THEN conjunct2, THEN conjunct2, THEN conjunct2, THEN conjunct2,
    THEN conjunct2]
  from p1 p2 p6 p7 c d e f show ?thesis
    by (auto simp del: step.simps data_eq)
qed

text \<open>
  Against the sentence of the specification: with MQTT connected and the valve closed,
  the tap followed by the command publishes \<open>ON\<close> twice, and the command followed by the
  tap leaves the valve closed.
\<close>

theorem tap_and_command_publish_twice:
  "published (init_state\<lparr>mqtt_connected := True\<rparr>) = [] \<and>
   published (step (Mqtt (MQTT_EVENT_DATA ''water_valve/set'' ''ON''))
                (step User_tap (init_state\<lparr>mqtt_connected := True\<rparr>)))
     = [\<lparr>topic = ''water_valve/state'', data = ''ON'', qos = 1, retain = True\<rparr>,
        \<lparr>topic = ''water_valve/state'', data = ''ON'', qos = 1, retain = True\<rparr>] \<and>
   valve (step (Mqtt (MQTT_EVENT_DATA ''water_valve/set'' ''ON''))
            (step User_tap (init_state\<lparr>mqtt_connected := True\<rparr>))) = (True, 300) \<and>
   valve (step User_tap (step (Mqtt (MQTT_EVENT_DATA ''water_valve/set'' ''ON''))
            (init_state\<lparr>mqtt_connected := True\<rparr>))) = (False, 300) \<and>
   published (step User_tap (step (Mqtt (MQTT_EVENT_DATA ''water_valve/set'' ''ON''))
                (init_state\<lparr>mqtt_connected := True\<rparr>)))
     = [\<lparr>topic = ''water_valve/state'', data = ''ON'', qos = 1, retain = True\<rparr>,
        \<lparr>topic = ''water_valve/state'', data = ''OFF'', qos = 1, retain = True\<rparr>]"
  by (simp add: COMMAND_TOPIC_def [symmetric] handle_valve_command_eq
      call_state_change_callback_eq mqtt_state_callback_eq lv_btn_tap_def toggle_event_cb_eq
      init_state_def state_msg_def STATE_TOPIC_def valve_def)

end
